theory Spec2Isabelle
  imports Complex_Main "HOL-Library.AList"
begin

section \<open>The radar feed\<close>

text \<open>
  The script \<^verbatim>\<open>script.js\<close> loads a JSON feed of radar frames, shows one frame at a
  time as a tile overlay on a Leaflet map, and animates through the frames.

  The feed is modelled at the shape the script documents: an object with an optional
  \<^verbatim>\<open>host\<close> string and an optional \<^verbatim>\<open>radar\<close> object, whose \<^verbatim>\<open>past\<close> and
  \<^verbatim>\<open>nowcast\<close> members are arrays of frames when they are present and arrays. A frame
  is an object with a string \<^verbatim>\<open>path\<close> and an integer \<^verbatim>\<open>time\<close> (seconds since the
  epoch). \<open>None\<close> for \<open>past\<close> or \<open>nowcast\<close> stands for every value that
  \<^verbatim>\<open>Array.isArray\<close> rejects (a missing key included); \<open>None\<close> for \<open>radar\<close> stands
  for every value whose \<^verbatim>\<open>past\<close> and \<^verbatim>\<open>nowcast\<close> the script never reads as arrays
  (missing, or falsy); \<open>None\<close> for \<open>host\<close> is a missing key.
\<close>

record frame =
  path :: string
  time :: int

record radarData =
  past :: "frame list option"
  nowcast :: "frame list option"

record feed =
  host :: "string option"
  radar :: "radarData option"

text \<open>The body of the HTTP response: text that is not JSON, the JSON value
  \<^verbatim>\<open>null\<close>, or a feed object. Any other JSON value (a number, a string, a boolean,
  an array) has no \<^verbatim>\<open>host\<close> and no \<^verbatim>\<open>radar\<close> member, and the script treats it as
  the feed object without members.\<close>

datatype body = Malformed | JsonNull | JsonObject feed

text \<open>What \<^verbatim>\<open>fetch(apiUrl)\<close> settles with: a rejection (no response at all), or a
  response with its HTTP status and body.\<close>

datatype response = NetworkFailure | Response nat body

text \<open>\<^verbatim>\<open>response.ok\<close> of the Fetch API: the status is in the range 200 to 299.\<close>

definition ok :: "nat \<Rightarrow> bool" where
  "ok status = (200 \<le> status \<and> status \<le> 299)"

datatype error =
    TypeError
  | NetworkResponseNotOk
  | SyntaxError
  | FetchRejected

section \<open>Configuration constants\<close>

definition apiUrl :: string where
  "apiUrl = ''https://api.rainviewer.com/public/weather-maps.json''"

definition tileSize :: nat where
  "tileSize = 512"

definition colorScheme :: nat where
  "colorScheme = 2"

definition smooth :: nat where
  "smooth = 1"

definition snow :: nat where
  "snow = 1"

definition extension :: string where
  "extension = ''png''"

section \<open>JavaScript values the script relies on\<close>

text \<open>String concatenation with a number operand converts the number with
  \<^verbatim>\<open>ToString\<close>; for a non-negative integer that is its decimal numeral.\<close>

definition digitChar :: "nat \<Rightarrow> char" where
  "digitChar d = ''0123456789'' ! d"

fun numberToString :: "nat \<Rightarrow> string" where
  "numberToString n =
     (if n < 10 then [digitChar n]
      else numberToString (n div 10) @ [digitChar (n mod 10)])"

declare numberToString.simps [simp del]

text \<open>\<^verbatim>\<open>apiData.host\<close> as an operand of \<^verbatim>\<open>+\<close> with a string: a missing host is
  \<^verbatim>\<open>undefined\<close>, which concatenates as the text \<^verbatim>\<open>undefined\<close>.\<close>

definition hostToString :: "string option \<Rightarrow> string" where
  "hostToString h = (case h of None \<Rightarrow> ''undefined'' | Some t \<Rightarrow> t)"

text \<open>The text content of a page element: what the hosting page put there (the page
  is not part of the script), a string the script wrote, or the result of
  \<^verbatim>\<open>new Date(ms).toLocaleString()\<close>, which depends on the browser's locale and time
  zone and is kept symbolic.\<close>

datatype textContent = PageMarkup | Str string | DateLocaleString int

section \<open>Leaflet tile layers\<close>

text \<open>The options the script passes to \<^verbatim>\<open>L.tileLayer\<close> for a radar overlay.\<close>

record layerOptions =
  optTileSize :: nat
  opacity :: rat
  zIndex :: nat
  maxZoom :: nat

definition overlayOptions :: layerOptions where
  "overlayOptions = \<lparr>optTileSize = 256, opacity = 6 / 10, zIndex = 10, maxZoom = 9\<rparr>"

text \<open>A tile layer object. \<open>layerId\<close> is the identity of the object: every call of
  \<^verbatim>\<open>L.tileLayer\<close> makes a new one.\<close>

record tileLayer =
  layerId :: nat
  urlTemplate :: string
  options :: layerOptions

text \<open>The base OpenStreetMap layer is created and added to the map when the script
  starts; it is the first layer object.\<close>

definition baseLayerId :: nat where
  "baseLayerId = 0"

section \<open>Program state\<close>

datatype apidata = ApiUndefined | ApiNull | ApiObject feed

text \<open>
  The script's variables (\<open>apiData\<close> to \<open>timer\<close>) and the part of the browser it
  acts on: the layers on the map (\<open>mapLayers\<close>, by identity), the counter that gives a
  new layer its identity, the interval timers that are scheduled (\<open>intervals\<close>) with
  the counter for their ids, and the text of the two page elements the script writes.
  \<open>radarLayers\<close> holds the own properties of the cache object in insertion order.
\<close>

record state =
  apiData :: apidata
  frames :: "frame list"
  currentFrameIndex :: int
  radarLayers :: "(string \<times> tileLayer) list"
  playing :: bool
  timer :: "nat option"
  mapLayers :: "nat list"
  nextLayerId :: nat
  intervals :: "nat list"
  nextIntervalId :: nat
  frameTimeText :: textContent
  playPauseText :: textContent

definition initialState :: state where
  "initialState =
     \<lparr>apiData = ApiUndefined, frames = [], currentFrameIndex = 0, radarLayers = [],
      playing = False, timer = None, mapLayers = [baseLayerId],
      nextLayerId = Suc baseLayerId, intervals = [], nextIntervalId = 0,
      frameTimeText = PageMarkup, playPauseText = PageMarkup\<rparr>"

section \<open>buildTileUrl\<close>

text \<open>\<^verbatim>\<open>buildTileUrl(frame)\<close> reads the global \<open>apiData\<close>. Reading \<^verbatim>\<open>.host\<close> of
  \<^verbatim>\<open>undefined\<close> or \<^verbatim>\<open>null\<close> throws a TypeError.\<close>

definition buildTileUrl :: "state \<Rightarrow> frame \<Rightarrow> error + string" where
  "buildTileUrl s frame =
     (case apiData s of
        ApiUndefined \<Rightarrow> Inl TypeError
      | ApiNull \<Rightarrow> Inl TypeError
      | ApiObject d \<Rightarrow>
          Inr (hostToString (host d) @ path frame @ ''/'' @ numberToString tileSize @
               ''/{z}/{x}/{y}/'' @ numberToString colorScheme @ ''/'' @
               numberToString smooth @ ''_'' @ numberToString snow @ ''.'' @ extension))"

section \<open>The layer cache\<close>

text \<open>
  \<open>radarLayers\<close> is a plain object created by \<^verbatim>\<open>{}\<close>, so reading
  \<^verbatim>\<open>radarLayers[key]\<close> finds an own property first and then a member of
  \<^verbatim>\<open>Object.prototype\<close>. The inherited members are functions, and
  \<^verbatim>\<open>__proto__\<close> yields the prototype object: all of them are truthy and none has an
  \<^verbatim>\<open>addTo\<close> method.
\<close>

definition objectPrototypeKeys :: "string list" where
  "objectPrototypeKeys =
     [''constructor'', ''hasOwnProperty'', ''isPrototypeOf'', ''propertyIsEnumerable'',
      ''toLocaleString'', ''toString'', ''valueOf'', ''__proto__'',
      ''__defineGetter__'', ''__defineSetter__'', ''__lookupGetter__'',
      ''__lookupSetter__'']"

datatype property = Undefined | OwnLayer tileLayer | Inherited

definition getProperty :: "(string \<times> tileLayer) list \<Rightarrow> string \<Rightarrow> property" where
  "getProperty obj key =
     (case map_of obj key of
        Some layer \<Rightarrow> OwnLayer layer
      | None \<Rightarrow> if key \<in> set objectPrototypeKeys then Inherited else Undefined)"

fun truthy :: "property \<Rightarrow> bool" where
  "truthy Undefined = False"
| "truthy (OwnLayer layer) = True"
| "truthy Inherited = True"

section \<open>Leaflet operations on the map\<close>

definition hasLayer :: "state \<Rightarrow> nat \<Rightarrow> bool" where
  "hasLayer s i = (i \<in> set (mapLayers s))"

definition removeLayer :: "nat \<Rightarrow> state \<Rightarrow> state" where
  "removeLayer i s = s\<lparr>mapLayers := removeAll i (mapLayers s)\<rparr>"

text \<open>\<^verbatim>\<open>layer.addTo(map)\<close> adds the layer unless the map has it already.\<close>

definition addTo :: "tileLayer \<Rightarrow> state \<Rightarrow> state" where
  "addTo layer s =
     (if hasLayer s (layerId layer) then s
      else s\<lparr>mapLayers := mapLayers s @ [layerId layer]\<rparr>)"

text \<open>\<^verbatim>\<open>clearRadarLayers\<close>: for each own value of the cache, remove it from the map
  when the map has it.\<close>

definition clearStep :: "tileLayer \<Rightarrow> state \<Rightarrow> state" where
  "clearStep layer s =
     (if hasLayer s (layerId layer) then removeLayer (layerId layer) s else s)"

definition clearRadarLayers :: "state \<Rightarrow> state" where
  "clearRadarLayers s = fold clearStep (map snd (radarLayers s)) s"

text \<open>The overlays shown on the map: every layer on it but the base layer.\<close>

definition activeOverlays :: "state \<Rightarrow> nat list" where
  "activeOverlays s = filter (\<lambda>i. i \<noteq> baseLayerId) (mapLayers s)"

section \<open>loadFrame\<close>

text \<open>The two wrap-around assignments at the head of \<^verbatim>\<open>loadFrame\<close>, for a
  collection of \<open>n\<close> frames.\<close>

definition normalizeIndex :: "int \<Rightarrow> nat \<Rightarrow> int" where
  "normalizeIndex position n =
     (let position1 = (if position < 0 then int n - 1 else position)
      in if position1 \<ge> int n then 0 else position1)"

text \<open>
  A function that can throw returns the exception, if any, together with the state at
  that moment: assignments made before the throw stay.

  The block of \<^verbatim>\<open>loadFrame\<close> that creates the tile layer of a frame when the cache
  has no truthy value under the frame's path.
\<close>

definition createLayerIfMissing :: "frame \<Rightarrow> state \<Rightarrow> error option \<times> state" where
  "createLayerIfMissing frame s =
     (if truthy (getProperty (radarLayers s) (path frame)) then (None, s)
      else
        (case buildTileUrl s frame of
           Inl e \<Rightarrow> (Some e, s)
         | Inr url \<Rightarrow>
             (None,
              s\<lparr>radarLayers :=
                   AList.update (path frame)
                     \<lparr>layerId = nextLayerId s, urlTemplate = url, options = overlayOptions\<rparr>
                     (radarLayers s),
                 nextLayerId := Suc (nextLayerId s)\<rparr>)))"

text \<open>The rest of \<^verbatim>\<open>loadFrame\<close>: clear the radar layers, add the frame's layer to
  the map and write the frame's time. Calling \<^verbatim>\<open>addTo\<close> on a value that has no such
  method throws a TypeError.\<close>

definition displayLayer :: "frame \<Rightarrow> state \<Rightarrow> error option \<times> state" where
  "displayLayer frame s =
     (let s1 = clearRadarLayers s in
      case getProperty (radarLayers s1) (path frame) of
        OwnLayer layer \<Rightarrow>
          (None, (addTo layer s1)\<lparr>frameTimeText := DateLocaleString (time frame * 1000)\<rparr>)
      | Inherited \<Rightarrow> (Some TypeError, s1)
      | Undefined \<Rightarrow> (Some TypeError, s1))"

definition loadFrame :: "int \<Rightarrow> state \<Rightarrow> error option \<times> state" where
  "loadFrame position s =
     (if length (frames s) = 0 then (None, s)
      else
        let s1 = s\<lparr>currentFrameIndex := normalizeIndex position (length (frames s))\<rparr>;
            frame = frames s1 ! nat (currentFrameIndex s1)
        in
          (case createLayerIfMissing frame s1 of
             (Some e, s2) \<Rightarrow> (Some e, s2)
           | (None, s2) \<Rightarrow> displayLayer frame s2))"

definition nextFrame :: "state \<Rightarrow> error option \<times> state" where
  "nextFrame s = loadFrame (currentFrameIndex s + 1) s"

definition prevFrame :: "state \<Rightarrow> error option \<times> state" where
  "prevFrame s = loadFrame (currentFrameIndex s - 1) s"

section \<open>Animation\<close>

text \<open>\<^verbatim>\<open>setInterval\<close> schedules a new timer and returns its id;
  \<^verbatim>\<open>clearInterval\<close> cancels the timer with the given id, and does nothing for
  \<^verbatim>\<open>undefined\<close>.\<close>

definition startAnimation :: "state \<Rightarrow> state" where
  "startAnimation s =
     (if playing s then s
      else s\<lparr>playing := True,
             playPauseText := Str ''Stop'',
             timer := Some (nextIntervalId s),
             intervals := intervals s @ [nextIntervalId s],
             nextIntervalId := Suc (nextIntervalId s)\<rparr>)"

definition clearInterval :: "nat option \<Rightarrow> state \<Rightarrow> state" where
  "clearInterval t s =
     (case t of None \<Rightarrow> s | Some i \<Rightarrow> s\<lparr>intervals := removeAll i (intervals s)\<rparr>)"

definition stopAnimation :: "state \<Rightarrow> state" where
  "stopAnimation s =
     (if \<not> playing s then s
      else clearInterval (timer s) (s\<lparr>playing := False, playPauseText := Str ''Play''\<rparr>))"

section \<open>Event handlers\<close>

text \<open>
  The click handlers of the three controls and the callback of the interval timer. An
  exception that leaves a handler is reported by the browser and the state stays as
  it was at the throw. A timer callback runs only while a timer is scheduled.
\<close>

datatype event = PlayPauseClick | PrevFrameClick | NextFrameClick | TimerTick

fun handle :: "event \<Rightarrow> state \<Rightarrow> state" where
  "handle PlayPauseClick s = (if playing s then stopAnimation s else startAnimation s)"
| "handle PrevFrameClick s = snd (prevFrame (stopAnimation s))"
| "handle NextFrameClick s = snd (nextFrame (stopAnimation s))"
| "handle TimerTick s = (if intervals s = [] then s else snd (nextFrame s))"

section \<open>fetchFrames\<close>

text \<open>The first \<^verbatim>\<open>then\<close> callback: a response that is not ok throws, and
  \<^verbatim>\<open>response.json()\<close> rejects on a body that is not JSON.\<close>

definition parseResponse :: "response \<Rightarrow> error + apidata" where
  "parseResponse r =
     (case r of
        NetworkFailure \<Rightarrow> Inl FetchRejected
      | Response status b \<Rightarrow>
          if \<not> ok status then Inl NetworkResponseNotOk
          else (case b of
                  Malformed \<Rightarrow> Inl SyntaxError
                | JsonNull \<Rightarrow> Inr ApiNull
                | JsonObject d \<Rightarrow> Inr (ApiObject d)))"

text \<open>\<^verbatim>\<open>data.radar && Array.isArray(data.radar.past)\<close> and the same for
  \<^verbatim>\<open>nowcast\<close>: the array when the member is one.\<close>

definition arrayMember :: "feed \<Rightarrow> (radarData \<Rightarrow> frame list option) \<Rightarrow> frame list option" where
  "arrayMember d member = (case radar d of None \<Rightarrow> None | Some r \<Rightarrow> member r)"

text \<open>The second \<^verbatim>\<open>then\<close> callback.\<close>

definition onData :: "apidata \<Rightarrow> state \<Rightarrow> error option \<times> state" where
  "onData data s =
     (let s1 = s\<lparr>apiData := data, frames := []\<rparr> in
      case data of
        ApiUndefined \<Rightarrow> (Some TypeError, s1)
      | ApiNull \<Rightarrow> (Some TypeError, s1)
      | ApiObject d \<Rightarrow>
          let s2 = (case arrayMember d past of
                      Some fs \<Rightarrow> s1\<lparr>frames := fs\<rparr>
                    | None \<Rightarrow> s1);
              s3 = (case arrayMember d nowcast of
                      Some fs \<Rightarrow> s2\<lparr>frames := frames s2 @ fs\<rparr>
                    | None \<Rightarrow> s2)
          in if length (frames s3) = 0 then (None, s3\<lparr>frameTimeText := Str ''No data''\<rparr>)
             else loadFrame (int (length (frames s3)) - 1) s3)"

text \<open>The \<^verbatim>\<open>catch\<close> callback.\<close>

definition onError :: "state \<Rightarrow> state" where
  "onError s = s\<lparr>frameTimeText := Str ''Error loading data''\<rparr>"

text \<open>The promise chain of \<^verbatim>\<open>fetchFrames\<close> once the fetch has settled with \<open>r\<close>.\<close>

definition fetchFrames :: "response \<Rightarrow> state \<Rightarrow> state" where
  "fetchFrames r s =
     (case parseResponse r of
        Inl e \<Rightarrow> onError s
      | Inr data \<Rightarrow>
          (case onData data s of
             (Some e, s') \<Rightarrow> onError s'
           | (None, s') \<Rightarrow> s'))"

section \<open>Runs of the page\<close>

text \<open>
  The script calls \<^verbatim>\<open>fetchFrames\<close> once, when it starts. Until the fetch settles the
  page handles clicks and timer callbacks (\<open>pending\<close>); it settles once, and the page
  goes on handling events (\<open>settled\<close>).
\<close>

inductive pending :: "state \<Rightarrow> bool" where
  pending_init: "pending initialState"
| pending_step: "pending s \<Longrightarrow> pending (handle e s)"

inductive settled :: "state \<Rightarrow> bool" where
  settled_fetch: "pending s \<Longrightarrow> settled (fetchFrames r s)"
| settled_step: "settled s \<Longrightarrow> settled (handle e s)"

definition reachable :: "state \<Rightarrow> bool" where
  "reachable s = (pending s \<or> settled s)"

section \<open>Example data\<close>

text \<open>Two observed frames and one forecast frame, a feed that carries them, a feed
  whose only frame has the path \<^verbatim>\<open>constructor\<close>, and the states of the page after
  each feed has loaded.\<close>

definition frameA :: frame where
  "frameA = \<lparr>path = ''/v2/radar/1755471000'', time = 1755471000\<rparr>"

definition frameB :: frame where
  "frameB = \<lparr>path = ''/v2/radar/1755471600'', time = 1755471600\<rparr>"

definition frameC :: frame where
  "frameC = \<lparr>path = ''/v2/radar/nowcast_760a92849a05'', time = 1755472200\<rparr>"

definition tileHost :: string where
  "tileHost = ''https://tilecache.rainviewer.com''"

definition exampleFeed :: feed where
  "exampleFeed =
     \<lparr>host = Some tileHost,
      radar = Some \<lparr>past = Some [frameA, frameB], nowcast = Some [frameC]\<rparr>\<rparr>"

definition exampleState :: state where
  "exampleState = fetchFrames (Response 200 (JsonObject exampleFeed)) initialState"

definition constructorFrame :: frame where
  "constructorFrame = \<lparr>path = ''constructor'', time = 1755471000\<rparr>"

definition constructorFeed :: feed where
  "constructorFeed =
     \<lparr>host = Some tileHost,
      radar = Some \<lparr>past = Some [constructorFrame], nowcast = None\<rparr>\<rparr>"

definition constructorState :: state where
  "constructorState = fetchFrames (Response 200 (JsonObject constructorFeed)) initialState"

section \<open>Notions used in the statements\<close>

text \<open>An array member of the feed read as a list of frames: the array when the member
  is one, and no frames otherwise.\<close>

definition arrayOrEmpty :: "frame list option \<Rightarrow> frame list" where
  "arrayOrEmpty a = (case a of None \<Rightarrow> [] | Some fs \<Rightarrow> fs)"

text \<open>A sequence of \<^verbatim>\<open>loadFrame\<close> calls, one for each position of the list in turn;
  an exception ends a call, not the sequence.\<close>

definition loadFrames :: "int list \<Rightarrow> state \<Rightarrow> state" where
  "loadFrames positions s = fold (\<lambda>position s'. snd (loadFrame position s')) positions s"

text \<open>No frame of the collection has a path that names a member of
  \<^verbatim>\<open>Object.prototype\<close>.\<close>

definition ownPathsOnly :: "state \<Rightarrow> bool" where
  "ownPathsOnly s = list_all (\<lambda>f. path f \<notin> set objectPrototypeKeys) (frames s)"

section \<open>Invariants of the page\<close>

text \<open>While the animation plays, the timer variable holds the one scheduled interval;
  while it is stopped, no interval is scheduled.\<close>

definition timerInv :: "state \<Rightarrow> bool" where
  "timerInv s =
     (if playing s then (case timer s of Some t \<Rightarrow> intervals s = [t] | None \<Rightarrow> False)
      else intervals s = [])"

text \<open>The current index is a position of the collection, when there is one.\<close>

definition indexInv :: "state \<Rightarrow> bool" where
  "indexInv s =
     (frames s = [] \<or>
      (0 \<le> currentFrameIndex s \<and> currentFrameIndex s < int (length (frames s))))"

text \<open>The identities of the layers in the cache.\<close>

definition cacheIds :: "state \<Rightarrow> nat set" where
  "cacheIds s = layerId ` snd ` set (radarLayers s)"

text \<open>
  The map shows the base layer and at most one layer of the cache; every cached layer
  was made after the base layer and before the next one to come; nothing is shown
  while the collection is empty; and frames are only there once the feed object is.
\<close>

definition overlayInv :: "state \<Rightarrow> bool" where
  "overlayInv s =
     (baseLayerId < nextLayerId s \<and>
      (\<forall>i \<in> cacheIds s. baseLayerId < i \<and> i < nextLayerId s) \<and>
      (mapLayers s = [baseLayerId] \<or> (\<exists>i \<in> cacheIds s. mapLayers s = [baseLayerId, i])) \<and>
      (frames s = [] \<longrightarrow> mapLayers s = [baseLayerId]) \<and>
      (frames s \<noteq> [] \<longrightarrow> (\<exists>d. apiData s = ApiObject d)))"

text \<open>A collection whose paths name no member of \<^verbatim>\<open>Object.prototype\<close> has one of its
  layers on the map.\<close>

definition shownInv :: "state \<Rightarrow> bool" where
  "shownInv s =
     (frames s \<noteq> [] \<and> ownPathsOnly s \<longrightarrow>
        (\<exists>i \<in> cacheIds s. mapLayers s = [baseLayerId, i]))"

section \<open>Evaluating the examples\<close>

lemma numberToString_consts:
  "numberToString tileSize = ''512''" "numberToString colorScheme = ''2''"
  "numberToString smooth = ''1''" "numberToString snow = ''1''"
  by (simp_all add: tileSize_def colorScheme_def smooth_def snow_def numberToString.simps
      digitChar_def)

lemmas eval_defs =
  fetchFrames_def parseResponse_def ok_def onData_def onError_def arrayMember_def Let_def
  loadFrame_def normalizeIndex_def createLayerIfMissing_def getProperty_def
  objectPrototypeKeys_def buildTileUrl_def hostToString_def numberToString_consts
  extension_def displayLayer_def clearRadarLayers_def clearStep_def hasLayer_def
  removeLayer_def addTo_def baseLayerId_def initialState_def tileHost_def
  frameA_def frameB_def frameC_def exampleFeed_def

lemma exampleState_eval:
  "exampleState =
     \<lparr>apiData = ApiObject exampleFeed, frames = [frameA, frameB, frameC],
      currentFrameIndex = 2,
      radarLayers =
        [(path frameC,
          \<lparr>layerId = 1,
           urlTemplate =
             ''https://tilecache.rainviewer.com/v2/radar/nowcast_760a92849a05/512/{z}/{x}/{y}/2/1_1.png'',
           options = overlayOptions\<rparr>)],
      playing = False, timer = None, mapLayers = [0, 1],
      nextLayerId = 2, intervals = [], nextIntervalId = 0,
      frameTimeText = DateLocaleString 1755472200000, playPauseText = PageMarkup\<rparr>"
  by (simp add: exampleState_def eval_defs)

section \<open>Clearing the radar layers\<close>

lemma clearStep_eq: "clearStep l s = s\<lparr>mapLayers := removeAll (layerId l) (mapLayers s)\<rparr>"
  by (simp add: clearStep_def hasLayer_def removeLayer_def)

lemma filter_removeAll:
  "filter P (removeAll a xs) = filter (\<lambda>i. i \<noteq> a \<and> P i) xs"
  by (induction xs) auto

lemma fold_clearStep_eq:
  "fold clearStep ls s =
     s\<lparr>mapLayers := filter (\<lambda>i. i \<notin> layerId ` set ls) (mapLayers s)\<rparr>"
proof (induction ls arbitrary: s)
  case Nil
  show ?case by simp
next
  case (Cons l ls)
  have "fold clearStep (l # ls) s = fold clearStep ls (clearStep l s)"
    by simp
  also have "\<dots> =
      (clearStep l s)\<lparr>mapLayers :=
         filter (\<lambda>i. i \<notin> layerId ` set ls) (mapLayers (clearStep l s))\<rparr>"
    by (rule Cons.IH)
  also have "\<dots> =
      s\<lparr>mapLayers := filter (\<lambda>i. i \<notin> layerId ` set (l # ls)) (mapLayers s)\<rparr>"
    by (simp add: clearStep_eq filter_removeAll)
  finally show ?case .
qed

lemma clearRadarLayers_eq:
  "clearRadarLayers s =
     s\<lparr>mapLayers := filter (\<lambda>i. i \<notin> layerId ` snd ` set (radarLayers s)) (mapLayers s)\<rparr>"
  by (simp add: clearRadarLayers_def fold_clearStep_eq)

section \<open>The four ways through loadFrame\<close>

lemma loadFrame_empty: "frames s = [] \<Longrightarrow> loadFrame i s = (None, s)"
  by (simp add: loadFrame_def)

lemma loadFrame_nonempty:
  "frames s \<noteq> [] \<Longrightarrow>
     loadFrame i s =
       (case createLayerIfMissing (frames s ! nat (normalizeIndex i (length (frames s))))
               (s\<lparr>currentFrameIndex := normalizeIndex i (length (frames s))\<rparr>) of
          (Some e, s2) \<Rightarrow> (Some e, s2)
        | (None, s2) \<Rightarrow> displayLayer (frames s ! nat (normalizeIndex i (length (frames s)))) s2)"
  by (simp add: loadFrame_def Let_def split: prod.splits option.splits)

lemma update_absent: "map_of al k = None \<Longrightarrow> AList.update k v al = al @ [(k, v)]"
  by (induction al) (auto split: if_splits)

lemma getProperty_Own:
  "getProperty obj key = OwnLayer l \<longleftrightarrow> map_of obj key = Some l"
  by (simp add: getProperty_def split: option.splits)

lemma getProperty_Undefined:
  "getProperty obj key = Undefined \<longleftrightarrow> map_of obj key = None \<and> key \<notin> set objectPrototypeKeys"
  by (simp add: getProperty_def split: option.splits)

lemma getProperty_Inherited:
  "getProperty obj key = Inherited \<longleftrightarrow> map_of obj key = None \<and> key \<in> set objectPrototypeKeys"
  by (simp add: getProperty_def split: option.splits)

lemma buildTileUrl_index [simp]:
  "buildTileUrl (s\<lparr>currentFrameIndex := i\<rparr>) f = buildTileUrl s f"
  by (simp add: buildTileUrl_def)

lemma createLayerIfMissing_found:
  "getProperty (radarLayers s) (path f) \<noteq> Undefined \<Longrightarrow> createLayerIfMissing f s = (None, s)"
  by (cases "getProperty (radarLayers s) (path f)") (simp_all add: createLayerIfMissing_def)

lemma createLayerIfMissing_throw:
  "getProperty (radarLayers s) (path f) = Undefined \<Longrightarrow> buildTileUrl s f = Inl e \<Longrightarrow>
     createLayerIfMissing f s = (Some e, s)"
  by (simp add: createLayerIfMissing_def)

lemma createLayerIfMissing_new:
  "getProperty (radarLayers s) (path f) = Undefined \<Longrightarrow> buildTileUrl s f = Inr url \<Longrightarrow>
     createLayerIfMissing f s =
       (None,
        s\<lparr>radarLayers :=
             radarLayers s @
               [(path f, \<lparr>layerId = nextLayerId s, urlTemplate = url, options = overlayOptions\<rparr>)],
           nextLayerId := Suc (nextLayerId s)\<rparr>)"
proof -
  assume u: "getProperty (radarLayers s) (path f) = Undefined" and b: "buildTileUrl s f = Inr url"
  have "map_of (radarLayers s) (path f) = None"
    using u by (simp add: getProperty_Undefined)
  then show ?thesis
    by (simp add: createLayerIfMissing_def u b update_absent)
qed

lemma displayLayer_Own:
  assumes "getProperty (radarLayers s) (path f) = OwnLayer l"
  shows "displayLayer f s =
     (None,
      s\<lparr>mapLayers :=
           filter (\<lambda>i. i \<notin> layerId ` snd ` set (radarLayers s)) (mapLayers s) @ [layerId l],
         frameTimeText := DateLocaleString (time f * 1000)\<rparr>)"
proof -
  have "(path f, l) \<in> set (radarLayers s)"
    using assms by (simp add: getProperty_Own map_of_SomeD)
  then have "layerId l \<in> layerId ` snd ` set (radarLayers s)"
    by force
  then show ?thesis
    using assms by (simp add: displayLayer_def clearRadarLayers_eq addTo_def hasLayer_def)
qed

lemma displayLayer_not_Own:
  assumes "\<And>l. getProperty (radarLayers s) (path f) \<noteq> OwnLayer l"
  shows "displayLayer f s =
     (Some TypeError,
      s\<lparr>mapLayers := filter (\<lambda>i. i \<notin> layerId ` snd ` set (radarLayers s)) (mapLayers s)\<rparr>)"
proof (cases "getProperty (radarLayers s) (path f)")
  case Undefined
  then show ?thesis by (simp add: displayLayer_def clearRadarLayers_eq)
next
  case (OwnLayer l)
  then show ?thesis using assms by blast
next
  case Inherited
  then show ?thesis by (simp add: displayLayer_def clearRadarLayers_eq)
qed


lemma loadFrame_cached:
  assumes "frames s \<noteq> []"
    and "getProperty (radarLayers s) (path (frames s ! nat (normalizeIndex i (length (frames s))))) =
           OwnLayer l"
  shows "loadFrame i s =
     (None,
      s\<lparr>currentFrameIndex := normalizeIndex i (length (frames s)),
         mapLayers :=
           filter (\<lambda>j. j \<notin> layerId ` snd ` set (radarLayers s)) (mapLayers s) @ [layerId l],
         frameTimeText :=
           DateLocaleString (time (frames s ! nat (normalizeIndex i (length (frames s)))) * 1000)\<rparr>)"
  using assms
  by (simp add: loadFrame_nonempty createLayerIfMissing_found displayLayer_Own)

lemma loadFrame_inherited:
  assumes "frames s \<noteq> []"
    and "getProperty (radarLayers s) (path (frames s ! nat (normalizeIndex i (length (frames s))))) =
           Inherited"
  shows "loadFrame i s =
     (Some TypeError,
      s\<lparr>currentFrameIndex := normalizeIndex i (length (frames s)),
         mapLayers := filter (\<lambda>j. j \<notin> layerId ` snd ` set (radarLayers s)) (mapLayers s)\<rparr>)"
  using assms
  by (simp add: loadFrame_nonempty createLayerIfMissing_found displayLayer_not_Own)

lemma loadFrame_throw:
  assumes "frames s \<noteq> []"
    and "getProperty (radarLayers s) (path (frames s ! nat (normalizeIndex i (length (frames s))))) =
           Undefined"
    and "buildTileUrl s (frames s ! nat (normalizeIndex i (length (frames s)))) = Inl e"
  shows "loadFrame i s =
     (Some e, s\<lparr>currentFrameIndex := normalizeIndex i (length (frames s))\<rparr>)"
  using assms
  by (simp add: loadFrame_nonempty createLayerIfMissing_throw)

lemma loadFrame_created:
  assumes "frames s \<noteq> []"
    and "getProperty (radarLayers s) (path (frames s ! nat (normalizeIndex i (length (frames s))))) =
           Undefined"
    and "buildTileUrl s (frames s ! nat (normalizeIndex i (length (frames s)))) = Inr url"
  shows "loadFrame i s =
     (None,
      s\<lparr>currentFrameIndex := normalizeIndex i (length (frames s)),
         radarLayers :=
           radarLayers s @
             [(path (frames s ! nat (normalizeIndex i (length (frames s)))),
               \<lparr>layerId = nextLayerId s, urlTemplate = url, options = overlayOptions\<rparr>)],
         nextLayerId := Suc (nextLayerId s),
         mapLayers :=
           filter (\<lambda>j. j \<notin> layerId ` snd ` set (radarLayers s) \<and> j \<noteq> nextLayerId s)
             (mapLayers s) @ [nextLayerId s],
         frameTimeText :=
           DateLocaleString (time (frames s ! nat (normalizeIndex i (length (frames s)))) * 1000)\<rparr>)"
proof -
  let ?f = "frames s ! nat (normalizeIndex i (length (frames s)))"
  let ?l = "\<lparr>layerId = nextLayerId s, urlTemplate = url, options = overlayOptions\<rparr>"
  let ?s2 = "s\<lparr>currentFrameIndex := normalizeIndex i (length (frames s)),
         radarLayers := radarLayers s @ [(path ?f, ?l)],
         nextLayerId := Suc (nextLayerId s)\<rparr>"
  have n: "map_of (radarLayers s) (path ?f) = None"
    using assms(2) by (simp add: getProperty_Undefined)
  have c: "createLayerIfMissing ?f (s\<lparr>currentFrameIndex := normalizeIndex i (length (frames s))\<rparr>) =
        (None, ?s2)"
    using assms by (simp add: createLayerIfMissing_new)
  have g: "getProperty (radarLayers ?s2) (path ?f) = OwnLayer ?l"
    using n by (simp add: getProperty_Own map_add_Some_iff)
  show ?thesis
    using assms(1) by (simp add: loadFrame_nonempty c displayLayer_Own[OF g] conj_commute)
qed


lemma Own_in_cache:
  "getProperty (radarLayers s) key = OwnLayer l \<Longrightarrow> layerId l \<in> layerId ` snd ` set (radarLayers s)"
proof -
  assume "getProperty (radarLayers s) key = OwnLayer l"
  then have "(key, l) \<in> set (radarLayers s)"
    by (simp add: getProperty_Own map_of_SomeD)
  then show ?thesis by force
qed

lemma buildTileUrl_apiData:
  "apiData s' = apiData s \<Longrightarrow> buildTileUrl s' f = buildTileUrl s f"
  by (simp add: buildTileUrl_def)

lemma loadFrame_twice: "loadFrame k (snd (loadFrame k s)) = loadFrame k s"
proof (cases "frames s = []")
  case True
  then show ?thesis by (simp add: loadFrame_empty)
next
  case ne: False
  let ?p = "normalizeIndex k (length (frames s))"
  let ?f = "frames s ! nat ?p"
  show ?thesis
  proof (cases "getProperty (radarLayers s) (path ?f)")
    case (OwnLayer l)
    note first = loadFrame_cached[OF ne OwnLayer]
    let ?s' = "snd (loadFrame k s)"
    have fr: "frames ?s' = frames s" and rl: "radarLayers ?s' = radarLayers s"
      by (simp_all add: first)
    have ne': "frames ?s' \<noteq> []" using ne fr by simp
    have g': "getProperty (radarLayers ?s') (path (frames ?s' ! nat (normalizeIndex k (length (frames ?s'))))) =
        OwnLayer l"
      using OwnLayer by (simp add: fr rl)
    have "loadFrame k ?s' = loadFrame k s"
      unfolding loadFrame_cached[OF ne' g'] unfolding fr rl
      using Own_in_cache[OF OwnLayer] by (simp add: first)
    then show ?thesis .
  next
    case Inherited
    note first = loadFrame_inherited[OF ne Inherited]
    let ?s' = "snd (loadFrame k s)"
    have fr: "frames ?s' = frames s" and rl: "radarLayers ?s' = radarLayers s"
      by (simp_all add: first)
    have ne': "frames ?s' \<noteq> []" using ne fr by simp
    have g': "getProperty (radarLayers ?s') (path (frames ?s' ! nat (normalizeIndex k (length (frames ?s'))))) =
        Inherited"
      using Inherited by (simp add: fr rl)
    have "loadFrame k ?s' = loadFrame k s"
      unfolding loadFrame_inherited[OF ne' g'] unfolding fr rl
      by (simp add: first)
    then show ?thesis .
  next
    case Undefined
    show ?thesis
    proof (cases "buildTileUrl s ?f")
      case (Inl e)
      note first = loadFrame_throw[OF ne Undefined Inl]
      let ?s' = "snd (loadFrame k s)"
      have fr: "frames ?s' = frames s" and rl: "radarLayers ?s' = radarLayers s"
        and ap: "apiData ?s' = apiData s"
        by (simp_all add: first)
      have ne': "frames ?s' \<noteq> []" using ne fr by simp
      have g': "getProperty (radarLayers ?s') (path (frames ?s' ! nat (normalizeIndex k (length (frames ?s'))))) =
          Undefined"
        using Undefined by (simp add: fr rl)
      have b': "buildTileUrl ?s' (frames ?s' ! nat (normalizeIndex k (length (frames ?s')))) = Inl e"
        using Inl by (simp add: fr buildTileUrl_apiData[OF ap])
      have "loadFrame k ?s' = loadFrame k s"
        unfolding loadFrame_throw[OF ne' g' b'] unfolding fr
        by (simp add: first)
      then show ?thesis .
    next
      case (Inr url)
      note first = loadFrame_created[OF ne Undefined Inr]
      let ?l = "\<lparr>layerId = nextLayerId s, urlTemplate = url, options = overlayOptions\<rparr>"
      let ?s' = "snd (loadFrame k s)"
      have fr: "frames ?s' = frames s"
        and rl: "radarLayers ?s' = radarLayers s @ [(path ?f, ?l)]"
        by (simp_all add: first)
      have ne': "frames ?s' \<noteq> []" using ne fr by simp
      have n: "map_of (radarLayers s) (path ?f) = None"
        using Undefined by (simp add: getProperty_Undefined)
      have g': "getProperty (radarLayers ?s') (path (frames ?s' ! nat (normalizeIndex k (length (frames ?s'))))) =
          OwnLayer ?l"
        using n by (simp add: fr rl getProperty_Own map_add_Some_iff)
      have "loadFrame k ?s' = loadFrame k s"
        unfolding loadFrame_cached[OF ne' g'] unfolding fr rl
        by (simp add: first conj_commute)
      then show ?thesis .
    qed
  qed
qed

lemma loadFrame_shape:
  "\<exists>idx rl nl ml t.
     snd (loadFrame i s) =
       s\<lparr>currentFrameIndex := idx, radarLayers := rl, nextLayerId := nl, mapLayers := ml,
         frameTimeText := t\<rparr>"
proof (cases "frames s = []")
  case True
  have "s = s\<lparr>currentFrameIndex := currentFrameIndex s, radarLayers := radarLayers s,
              nextLayerId := nextLayerId s, mapLayers := mapLayers s,
              frameTimeText := frameTimeText s\<rparr>"
    by simp
  then show ?thesis
    using True by (metis loadFrame_empty snd_conv)
next
  case ne: False
  let ?f = "frames s ! nat (normalizeIndex i (length (frames s)))"
  show ?thesis
  proof (cases "getProperty (radarLayers s) (path ?f)")
    case (OwnLayer l)
    have "snd (loadFrame i s) =
       s\<lparr>currentFrameIndex := normalizeIndex i (length (frames s)),
         radarLayers := radarLayers s, nextLayerId := nextLayerId s,
         mapLayers :=
           filter (\<lambda>j. j \<notin> layerId ` snd ` set (radarLayers s)) (mapLayers s) @ [layerId l],
         frameTimeText := DateLocaleString (time ?f * 1000)\<rparr>"
      by (simp add: loadFrame_cached[OF ne OwnLayer])
    then show ?thesis by blast
  next
    case Inherited
    have "snd (loadFrame i s) =
       s\<lparr>currentFrameIndex := normalizeIndex i (length (frames s)),
         radarLayers := radarLayers s, nextLayerId := nextLayerId s,
         mapLayers := filter (\<lambda>j. j \<notin> layerId ` snd ` set (radarLayers s)) (mapLayers s),
         frameTimeText := frameTimeText s\<rparr>"
      by (simp add: loadFrame_inherited[OF ne Inherited])
    then show ?thesis by blast
  next
    case Undefined
    show ?thesis
    proof (cases "buildTileUrl s ?f")
      case (Inl e)
      have "snd (loadFrame i s) =
         s\<lparr>currentFrameIndex := normalizeIndex i (length (frames s)),
           radarLayers := radarLayers s, nextLayerId := nextLayerId s,
           mapLayers := mapLayers s, frameTimeText := frameTimeText s\<rparr>"
        by (simp add: loadFrame_throw[OF ne Undefined Inl])
      then show ?thesis by blast
    next
      case (Inr url)
      show ?thesis
        unfolding loadFrame_created[OF ne Undefined Inr] snd_conv by blast
    qed
  qed
qed

lemma loadFrame_keeps [simp]:
  "frames (snd (loadFrame i s)) = frames s"
  "apiData (snd (loadFrame i s)) = apiData s"
  "playing (snd (loadFrame i s)) = playing s"
  "timer (snd (loadFrame i s)) = timer s"
  "intervals (snd (loadFrame i s)) = intervals s"
  "nextIntervalId (snd (loadFrame i s)) = nextIntervalId s"
  "playPauseText (snd (loadFrame i s)) = playPauseText s"
proof -
  obtain idx rl nl ml t where
    "snd (loadFrame i s) =
       s\<lparr>currentFrameIndex := idx, radarLayers := rl, nextLayerId := nl, mapLayers := ml,
         frameTimeText := t\<rparr>"
    using loadFrame_shape by blast
  then show
    "frames (snd (loadFrame i s)) = frames s"
    "apiData (snd (loadFrame i s)) = apiData s"
    "playing (snd (loadFrame i s)) = playing s"
    "timer (snd (loadFrame i s)) = timer s"
    "intervals (snd (loadFrame i s)) = intervals s"
    "nextIntervalId (snd (loadFrame i s)) = nextIntervalId s"
    "playPauseText (snd (loadFrame i s)) = playPauseText s"
    by simp_all
qed

lemma loadFrame_index:
  "frames s \<noteq> [] \<Longrightarrow>
     currentFrameIndex (snd (loadFrame i s)) = normalizeIndex i (length (frames s))"
proof -
  assume ne: "frames s \<noteq> []"
  let ?f = "frames s ! nat (normalizeIndex i (length (frames s)))"
  show ?thesis
  proof (cases "getProperty (radarLayers s) (path ?f)")
    case (OwnLayer l)
    show ?thesis by (simp add: loadFrame_cached[OF ne OwnLayer])
  next
    case Inherited
    show ?thesis by (simp add: loadFrame_inherited[OF ne Inherited])
  next
    case Undefined
    show ?thesis
    proof (cases "buildTileUrl s ?f")
      case (Inl e)
      show ?thesis by (simp add: loadFrame_throw[OF ne Undefined Inl])
    next
      case (Inr url)
      show ?thesis by (simp add: loadFrame_created[OF ne Undefined Inr])
    qed
  qed
qed

lemma loadFrame_returns_cached:
  assumes "frames s \<noteq> []" and "fst (loadFrame i s) = None"
  shows "\<exists>l. getProperty (radarLayers (snd (loadFrame i s)))
              (path (frames s ! nat (normalizeIndex i (length (frames s))))) = OwnLayer l"
proof -
  note ne = assms(1)
  let ?f = "frames s ! nat (normalizeIndex i (length (frames s)))"
  show ?thesis
  proof (cases "getProperty (radarLayers s) (path ?f)")
    case (OwnLayer l)
    show ?thesis using OwnLayer by (simp add: loadFrame_cached[OF ne OwnLayer])
  next
    case Inherited
    show ?thesis using assms(2) by (simp add: loadFrame_inherited[OF ne Inherited])
  next
    case Undefined
    show ?thesis
    proof (cases "buildTileUrl s ?f")
      case (Inl e)
      show ?thesis using assms(2) by (simp add: loadFrame_throw[OF ne Undefined Inl])
    next
      case (Inr url)
      have "map_of (radarLayers s) (path ?f) = None"
        using Undefined by (simp add: getProperty_Undefined)
      then show ?thesis
        by (simp add: loadFrame_created[OF ne Undefined Inr] getProperty_Own map_add_Some_iff)
    qed
  qed
qed

section \<open>Claims about the index and the tile URL\<close>

text \<open>
  C1. For every integer \<open>i\<close> and every non-empty frame collection, the index that
  \<^verbatim>\<open>loadFrame\<close> computes lies in \<open>[0, n)\<close>, where \<open>n\<close> is the number of frames:
  \<open>-1\<close> goes to \<open>n - 1\<close>, \<open>n\<close> goes to \<open>0\<close>, every negative index goes to the last
  index, every index from \<open>n\<close> on goes to \<open>0\<close>, and an index in range is kept. That
  index is the current index after the call.
\<close>

theorem normalizeIndex_wraps:
  assumes "frames s \<noteq> []"
  shows "0 \<le> normalizeIndex i (length (frames s)) \<and>
         normalizeIndex i (length (frames s)) < int (length (frames s)) \<and>
         normalizeIndex (- 1) (length (frames s)) = int (length (frames s)) - 1 \<and>
         normalizeIndex (int (length (frames s))) (length (frames s)) = 0 \<and>
         normalizeIndex i (length (frames s)) =
            (if i < 0 then int (length (frames s)) - 1
             else if int (length (frames s)) \<le> i then 0
             else i) \<and>
         currentFrameIndex (snd (loadFrame i s)) = normalizeIndex i (length (frames s))"
  using assms loadFrame_index[OF assms, of i]
  by (auto simp add: normalizeIndex_def Let_def)

theorem normalizeIndex_wraps_witness:
  "frames exampleState \<noteq> [] \<and>
   normalizeIndex 7 (length (frames exampleState)) = 0 \<and>
   normalizeIndex (- 4) (length (frames exampleState)) = 2 \<and>
   currentFrameIndex (snd (loadFrame 7 exampleState)) = 0"
  using normalizeIndex_wraps[of exampleState 7] normalizeIndex_wraps[of exampleState "- 4"]
  by (simp add: exampleState_eval)

text \<open>
  C3. With the feed loaded and its host a string \<open>h\<close>, \<^verbatim>\<open>buildTileUrl\<close> returns for
  every frame the host, the frame's path, the tile size, the placeholders, the colour
  scheme, the smoothing and snow flags and the extension, joined as
  \<^verbatim>\<open><host><path>/512/{z}/{x}/{y}/2/1_1.png\<close>; for the path
  \<^verbatim>\<open>/v2/radar/1755471000\<close> that is
  \<^verbatim>\<open><host>/v2/radar/1755471000/512/{z}/{x}/{y}/2/1_1.png\<close>.
\<close>

theorem buildTileUrl_template:
  assumes "apiData s = ApiObject d" and "host d = Some h"
  shows "buildTileUrl s f =
           Inr (h @ path f @ ''/'' @ numberToString tileSize @ ''/{z}/{x}/{y}/'' @
                numberToString colorScheme @ ''/'' @ numberToString smooth @ ''_'' @
                numberToString snow @ ''.'' @ extension) \<and>
         buildTileUrl s f = Inr (h @ path f @ ''/512/{z}/{x}/{y}/2/1_1.png'') \<and>
         buildTileUrl s (f\<lparr>path := ''/v2/radar/1755471000''\<rparr>) =
           Inr (h @ ''/v2/radar/1755471000/512/{z}/{x}/{y}/2/1_1.png'')"
  using assms
  by (simp add: buildTileUrl_def hostToString_def numberToString_consts extension_def)

theorem buildTileUrl_template_witness:
  "apiData exampleState = ApiObject exampleFeed \<and> host exampleFeed = Some tileHost \<and>
   buildTileUrl exampleState frameA =
     Inr ''https://tilecache.rainviewer.com/v2/radar/1755471000/512/{z}/{x}/{y}/2/1_1.png''"
proof -
  have a: "apiData exampleState = ApiObject exampleFeed"
    by (simp add: exampleState_eval)
  have b: "host exampleFeed = Some tileHost"
    by (simp add: exampleFeed_def)
  have "buildTileUrl exampleState frameA =
          Inr (tileHost @ path frameA @ ''/512/{z}/{x}/{y}/2/1_1.png'')"
    using buildTileUrl_template[OF a b, of frameA] by blast
  then have "buildTileUrl exampleState frameA =
     Inr ''https://tilecache.rainviewer.com/v2/radar/1755471000/512/{z}/{x}/{y}/2/1_1.png''"
    by (simp add: tileHost_def frameA_def)
  with a b show ?thesis by blast
qed

section \<open>Claims about the feed loader\<close>

lemma onData_frames:
  "frames (snd (onData (ApiObject d) s)) =
     arrayOrEmpty (arrayMember d past) @ arrayOrEmpty (arrayMember d nowcast)"
  by (simp add: onData_def Let_def arrayOrEmpty_def split: option.splits)

lemma onData_empty:
  "arrayOrEmpty (arrayMember d past) @ arrayOrEmpty (arrayMember d nowcast) = [] \<Longrightarrow>
     onData (ApiObject d) s =
       (None, s\<lparr>apiData := ApiObject d, frames := [], frameTimeText := Str ''No data''\<rparr>)"
  by (simp add: onData_def Let_def arrayOrEmpty_def split: option.splits)

lemma onData_nonempty:
  "arrayOrEmpty (arrayMember d past) @ arrayOrEmpty (arrayMember d nowcast) = fs \<Longrightarrow> fs \<noteq> [] \<Longrightarrow>
     onData (ApiObject d) s =
       loadFrame (int (length fs) - 1) (s\<lparr>apiData := ApiObject d, frames := fs\<rparr>)"
  by (auto simp add: onData_def Let_def arrayOrEmpty_def split: option.splits)

lemma fetchFrames_ok:
  "ok status \<Longrightarrow>
     fetchFrames (Response status (JsonObject d)) s =
       (case onData (ApiObject d) s of (Some e, s') \<Rightarrow> onError s' | (None, s') \<Rightarrow> s')"
  by (simp add: fetchFrames_def parseResponse_def)

lemma fetchFrames_frames:
  "ok status \<Longrightarrow>
     frames (fetchFrames (Response status (JsonObject d)) s) =
       arrayOrEmpty (arrayMember d past) @ arrayOrEmpty (arrayMember d nowcast)"
  using onData_frames[of d s]
  by (cases "onData (ApiObject d) s")
     (simp add: fetchFrames_ok onError_def split: option.splits)

text \<open>
  C2. After a successful response the frame collection is the \<^verbatim>\<open>past\<close> array followed
  by the \<^verbatim>\<open>nowcast\<close> array, where a member that is missing or not an array counts as
  empty: \<^verbatim>\<open>{radar:{past:[A,B], nowcast:[C]}}\<close> gives \<open>[A, B, C]\<close>,
  \<^verbatim>\<open>{radar:{past:[A]}}\<close> gives \<open>[A]\<close>, and \<^verbatim>\<open>{radar:{}}\<close> gives the empty collection
  and the status text \<^verbatim>\<open>No data\<close>.
\<close>

theorem fetchFrames_composition:
  assumes "ok status"
  shows "frames (fetchFrames (Response status (JsonObject d)) s) =
           arrayOrEmpty (arrayMember d past) @ arrayOrEmpty (arrayMember d nowcast) \<and>
         frames (fetchFrames (Response status (JsonObject
             \<lparr>host = h, radar = Some \<lparr>past = Some [A, B], nowcast = Some [C]\<rparr>\<rparr>)) s) =
           [A, B, C] \<and>
         frames (fetchFrames (Response status (JsonObject
             \<lparr>host = h, radar = Some \<lparr>past = Some [A], nowcast = None\<rparr>\<rparr>)) s) =
           [A] \<and>
         frames (fetchFrames (Response status (JsonObject
             \<lparr>host = h, radar = Some \<lparr>past = None, nowcast = None\<rparr>\<rparr>)) s) =
           [] \<and>
         frameTimeText (fetchFrames (Response status (JsonObject
             \<lparr>host = h, radar = Some \<lparr>past = None, nowcast = None\<rparr>\<rparr>)) s) =
           Str ''No data''"
proof -
  let ?none = "\<lparr>host = h, radar = Some \<lparr>past = None, nowcast = None\<rparr>\<rparr>"
  have "onData (ApiObject ?none) s =
      (None, s\<lparr>apiData := ApiObject ?none, frames := [], frameTimeText := Str ''No data''\<rparr>)"
    by (rule onData_empty) (simp add: arrayOrEmpty_def arrayMember_def)
  then have "frameTimeText (fetchFrames (Response status (JsonObject ?none)) s) = Str ''No data''"
    by (simp add: fetchFrames_ok[OF assms])
  then show ?thesis
    by (simp add: fetchFrames_frames[OF assms] arrayOrEmpty_def arrayMember_def)
qed

theorem fetchFrames_composition_witness:
  "ok 200 \<and>
   frames (fetchFrames (Response 200 (JsonObject exampleFeed)) initialState) =
     [frameA, frameB, frameC] \<and>
   frameTimeText (fetchFrames (Response 200 (JsonObject
       \<lparr>host = None, radar = Some \<lparr>past = None, nowcast = None\<rparr>\<rparr>)) initialState) =
     Str ''No data''"
proof -
  have o: "ok 200" by (simp add: ok_def)
  note t = fetchFrames_composition[OF o, of _ initialState]
  have "frames (fetchFrames (Response 200 (JsonObject exampleFeed)) initialState) =
     [frameA, frameB, frameC]"
    using t[of exampleFeed] by (simp add: exampleFeed_def arrayOrEmpty_def arrayMember_def)
  moreover have "frameTimeText (fetchFrames (Response 200 (JsonObject
       \<lparr>host = None, radar = Some \<lparr>past = None, nowcast = None\<rparr>\<rparr>)) initialState) =
     Str ''No data''"
    using t[of exampleFeed None] by blast
  ultimately show ?thesis using o by blast
qed

text \<open>
  C7. When the response has a status that is not a success (500, say) or a body that
  does not parse, the status text becomes \<^verbatim>\<open>Error loading data\<close> and nothing else
  changes: the frame collection, the current index, the layer cache, the layers on the
  map and the playback state are as before.
\<close>

theorem fetchFrames_failure:
  assumes "\<not> ok status \<or> b = Malformed"
  shows "fetchFrames (Response status b) s = s\<lparr>frameTimeText := Str ''Error loading data''\<rparr> \<and>
         frameTimeText (fetchFrames (Response status b) s) = Str ''Error loading data'' \<and>
         frames (fetchFrames (Response status b) s) = frames s \<and>
         currentFrameIndex (fetchFrames (Response status b) s) = currentFrameIndex s \<and>
         radarLayers (fetchFrames (Response status b) s) = radarLayers s \<and>
         mapLayers (fetchFrames (Response status b) s) = mapLayers s \<and>
         playing (fetchFrames (Response status b) s) = playing s \<and>
         timer (fetchFrames (Response status b) s) = timer s \<and>
         intervals (fetchFrames (Response status b) s) = intervals s"
proof -
  have "fetchFrames (Response status b) s = onError s"
    using assms by (auto simp add: fetchFrames_def parseResponse_def)
  then show ?thesis by (simp add: onError_def)
qed

theorem fetchFrames_failure_witness:
  "\<not> ok 500 \<and>
   fetchFrames (Response 500 (JsonObject exampleFeed)) exampleState =
     exampleState\<lparr>frameTimeText := Str ''Error loading data''\<rparr> \<and>
   fetchFrames (Response 200 Malformed) initialState =
     initialState\<lparr>frameTimeText := Str ''Error loading data''\<rparr>"
proof -
  have n: "\<not> ok 500" by (simp add: ok_def)
  have "fetchFrames (Response 500 (JsonObject exampleFeed)) exampleState =
     exampleState\<lparr>frameTimeText := Str ''Error loading data''\<rparr>"
    using fetchFrames_failure[of 500 "JsonObject exampleFeed" exampleState] n by blast
  moreover have "fetchFrames (Response 200 Malformed) initialState =
     initialState\<lparr>frameTimeText := Str ''Error loading data''\<rparr>"
    using fetchFrames_failure[of 200 Malformed initialState] by blast
  ultimately show ?thesis using n by blast
qed

section \<open>The timer invariant\<close>

lemma timerInv_fields:
  "playing s' = playing s \<Longrightarrow> timer s' = timer s \<Longrightarrow> intervals s' = intervals s \<Longrightarrow>
     timerInv s' = timerInv s"
  by (auto simp add: timerInv_def split: option.splits)

lemma timerInv_initial: "timerInv initialState"
  by (simp add: timerInv_def initialState_def)

lemma timerInv_start: "timerInv s \<Longrightarrow> timerInv (startAnimation s)"
  by (simp add: timerInv_def startAnimation_def)

lemma timerInv_stop: "timerInv s \<Longrightarrow> timerInv (stopAnimation s)"
  by (auto simp add: timerInv_def stopAnimation_def clearInterval_def split: option.splits)

lemma timerInv_loadFrame: "timerInv (snd (loadFrame i s)) = timerInv s"
  by (rule timerInv_fields) simp_all

lemma timerInv_handle: "timerInv s \<Longrightarrow> timerInv (handle e s)"
  by (cases e)
     (simp_all add: timerInv_start timerInv_stop timerInv_loadFrame nextFrame_def prevFrame_def)

lemma onData_keeps [simp]:
  "playing (snd (onData data s)) = playing s"
  "timer (snd (onData data s)) = timer s"
  "intervals (snd (onData data s)) = intervals s"
  "nextIntervalId (snd (onData data s)) = nextIntervalId s"
  "playPauseText (snd (onData data s)) = playPauseText s"
  "apiData (snd (onData data s)) = data"
proof -
  have "playing (snd (onData data s)) = playing s \<and>
        timer (snd (onData data s)) = timer s \<and>
        intervals (snd (onData data s)) = intervals s \<and>
        nextIntervalId (snd (onData data s)) = nextIntervalId s \<and>
        playPauseText (snd (onData data s)) = playPauseText s \<and>
        apiData (snd (onData data s)) = data"
  proof (cases data)
    case (ApiObject d)
    define fs where "fs = arrayOrEmpty (arrayMember d past) @ arrayOrEmpty (arrayMember d nowcast)"
    show ?thesis
    proof (cases "fs = []")
      case True
      then have "onData (ApiObject d) s =
          (None, s\<lparr>apiData := ApiObject d, frames := [], frameTimeText := Str ''No data''\<rparr>)"
        unfolding fs_def by (rule onData_empty)
      then show ?thesis using ApiObject by simp
    next
      case False
      have "onData (ApiObject d) s =
          loadFrame (int (length fs) - 1) (s\<lparr>apiData := ApiObject d, frames := fs\<rparr>)"
        using False unfolding fs_def by (rule onData_nonempty[OF refl])
      then show ?thesis using ApiObject by simp
    qed
  qed (simp_all add: onData_def)
  then show
    "playing (snd (onData data s)) = playing s"
    "timer (snd (onData data s)) = timer s"
    "intervals (snd (onData data s)) = intervals s"
    "nextIntervalId (snd (onData data s)) = nextIntervalId s"
    "playPauseText (snd (onData data s)) = playPauseText s"
    "apiData (snd (onData data s)) = data"
    by simp_all
qed

lemma fetchFrames_cases:
  "fetchFrames r s =
     (case parseResponse r of
        Inl e \<Rightarrow> onError s
      | Inr data \<Rightarrow>
          if fst (onData data s) = None then snd (onData data s)
          else onError (snd (onData data s)))"
  by (auto simp add: fetchFrames_def split: sum.splits prod.splits option.splits)

lemma fetchFrames_keeps [simp]:
  "playing (fetchFrames r s) = playing s"
  "timer (fetchFrames r s) = timer s"
  "intervals (fetchFrames r s) = intervals s"
  "nextIntervalId (fetchFrames r s) = nextIntervalId s"
  "playPauseText (fetchFrames r s) = playPauseText s"
  by (simp_all add: fetchFrames_cases onError_def split: sum.splits)

lemma timerInv_fetchFrames: "timerInv (fetchFrames r s) = timerInv s"
  by (rule timerInv_fields) simp_all

lemma pending_timerInv: "pending s \<Longrightarrow> timerInv s"
  by (induction rule: pending.induct) (simp_all add: timerInv_initial timerInv_handle)

lemma settled_timerInv: "settled s \<Longrightarrow> timerInv s"
  by (induction rule: settled.induct)
     (simp_all add: timerInv_fetchFrames pending_timerInv timerInv_handle)

lemma reachable_timerInv: "reachable s \<Longrightarrow> timerInv s"
  by (auto simp add: reachable_def pending_timerInv settled_timerInv)


lemma reachable_initialState: "reachable initialState"
  by (simp add: reachable_def pending_init)

lemma reachable_exampleState: "reachable exampleState"
  unfolding reachable_def exampleState_def
  by (rule disjI2, rule settled_fetch, rule pending_init)

lemma reachable_handle: "reachable s \<Longrightarrow> reachable (handle e s)"
  by (auto simp add: reachable_def intro: pending_step settled_step)

text \<open>
  C6. In every reachable state a timer is scheduled exactly when \<open>playing\<close> is true,
  and then it is the only one. Starting twice is starting once: after
  \<^verbatim>\<open>startAnimation(); startAnimation()\<close> one timer is scheduled and \<open>playing\<close> is
  true, and starting while playing changes nothing. Stopping while stopped changes
  nothing.
\<close>

theorem animation_start_stop:
  assumes "reachable s"
  shows "playing (startAnimation (startAnimation s)) \<and>
         length (intervals (startAnimation (startAnimation s))) = 1 \<and>
         startAnimation (startAnimation s) = startAnimation s \<and>
         (playing s \<longrightarrow> startAnimation s = s) \<and>
         (\<not> playing s \<longrightarrow> stopAnimation s = s) \<and>
         (intervals s \<noteq> [] \<longleftrightarrow> playing s) \<and>
         length (intervals s) = (if playing s then 1 else 0)"
proof -
  have "timerInv s"
    using assms by (rule reachable_timerInv)
  then have inv: "(playing s \<and> (\<exists>t. timer s = Some t \<and> intervals s = [t])) \<or>
      (\<not> playing s \<and> intervals s = [])"
    by (cases "playing s"; cases "timer s") (simp_all add: timerInv_def)
  have one: "length (intervals (startAnimation s)) = 1"
    using inv by (auto simp add: startAnimation_def)
  have twice: "startAnimation (startAnimation s) = startAnimation s"
    by (simp add: startAnimation_def)
  have "playing (startAnimation s)"
    by (simp add: startAnimation_def)
  moreover have "length (intervals s) = (if playing s then 1 else 0)"
    using inv by auto
  moreover have "(intervals s \<noteq> []) = playing s"
    using inv by auto
  ultimately show ?thesis
    using one twice by (simp add: startAnimation_def stopAnimation_def)
qed

theorem animation_start_stop_witness:
  "reachable exampleState \<and>
   playing (startAnimation (startAnimation exampleState)) \<and>
   intervals (startAnimation (startAnimation exampleState)) = [0] \<and>
   \<not> playing exampleState \<and> stopAnimation exampleState = exampleState \<and>
   intervals exampleState = [] \<and>
   reachable (handle PlayPauseClick exampleState) \<and>
   playing (handle PlayPauseClick exampleState) \<and>
   startAnimation (handle PlayPauseClick exampleState) = handle PlayPauseClick exampleState"
proof -
  note r = reachable_exampleState
  note r' = reachable_handle[OF r, of PlayPauseClick]
  have p: "\<not> playing exampleState" "intervals exampleState = []"
    by (simp_all add: exampleState_eval)
  have p': "playing (handle PlayPauseClick exampleState)"
    using p by (simp add: startAnimation_def)
  have i: "intervals (startAnimation (startAnimation exampleState)) = [0]"
    by (simp add: startAnimation_def exampleState_eval)
  show ?thesis
    using animation_start_stop[OF r] animation_start_stop[OF r'] r r' p p' i by blast
qed

section \<open>The index invariant\<close>

lemma normalizeIndex_range: "0 < n \<Longrightarrow> 0 \<le> normalizeIndex i n \<and> normalizeIndex i n < int n"
  by (simp add: normalizeIndex_def Let_def)

lemma indexInv_loadFrame: "indexInv (snd (loadFrame i s))"
proof (cases "frames s = []")
  case True
  then show ?thesis by (simp add: indexInv_def loadFrame_empty)
next
  case False
  then have "0 < length (frames s)" by simp
  then show ?thesis
    using normalizeIndex_range[of "length (frames s)" i]
    by (simp add: indexInv_def loadFrame_index[OF False])
qed

lemma indexInv_fields:
  "frames s' = frames s \<Longrightarrow> currentFrameIndex s' = currentFrameIndex s \<Longrightarrow>
     indexInv s' = indexInv s"
  by (simp add: indexInv_def)

lemma stopAnimation_keeps [simp]:
  "frames (stopAnimation s) = frames s"
  "currentFrameIndex (stopAnimation s) = currentFrameIndex s"
  "apiData (stopAnimation s) = apiData s"
  "radarLayers (stopAnimation s) = radarLayers s"
  "mapLayers (stopAnimation s) = mapLayers s"
  "nextLayerId (stopAnimation s) = nextLayerId s"
  by (simp_all add: stopAnimation_def clearInterval_def split: option.splits)

lemma startAnimation_keeps [simp]:
  "frames (startAnimation s) = frames s"
  "currentFrameIndex (startAnimation s) = currentFrameIndex s"
  "apiData (startAnimation s) = apiData s"
  "radarLayers (startAnimation s) = radarLayers s"
  "mapLayers (startAnimation s) = mapLayers s"
  "nextLayerId (startAnimation s) = nextLayerId s"
  by (simp_all add: startAnimation_def)

lemma indexInv_handle: "indexInv s \<Longrightarrow> indexInv (handle e s)"
proof (cases e)
  case PlayPauseClick
  assume "indexInv s"
  moreover have "indexInv (stopAnimation s) = indexInv s"
    by (rule indexInv_fields) simp_all
  moreover have "indexInv (startAnimation s) = indexInv s"
    by (rule indexInv_fields) simp_all
  ultimately show ?thesis using PlayPauseClick by simp
qed (simp_all add: indexInv_loadFrame nextFrame_def prevFrame_def)

lemma handle_frames [simp]: "frames (handle e s) = frames s"
  by (cases e) (simp_all add: nextFrame_def prevFrame_def)

lemma pending_frames: "pending s \<Longrightarrow> frames s = []"
  by (induction rule: pending.induct) (simp_all add: initialState_def)

lemma onData_indexInv: "frames s = [] \<Longrightarrow> indexInv (snd (onData data s))"
proof (cases data)
  case (ApiObject d)
  define fs where "fs = arrayOrEmpty (arrayMember d past) @ arrayOrEmpty (arrayMember d nowcast)"
  show ?thesis
  proof (cases "fs = []")
    case True
    then have "onData (ApiObject d) s =
        (None, s\<lparr>apiData := ApiObject d, frames := [], frameTimeText := Str ''No data''\<rparr>)"
      unfolding fs_def by (rule onData_empty)
    then show ?thesis using ApiObject by (simp add: indexInv_def)
  next
    case False
    have "onData (ApiObject d) s =
        loadFrame (int (length fs) - 1) (s\<lparr>apiData := ApiObject d, frames := fs\<rparr>)"
      using False unfolding fs_def by (rule onData_nonempty[OF refl])
    then show ?thesis using ApiObject by (simp add: indexInv_loadFrame)
  qed
qed (simp_all add: onData_def indexInv_def)

lemma fetchFrames_indexInv: "frames s = [] \<Longrightarrow> indexInv (fetchFrames r s)"
proof -
  assume e: "frames s = []"
  have "indexInv (onError s)"
    using e by (simp add: indexInv_def onError_def)
  moreover have "indexInv (onError (snd (onData data s)))" for data
    using onData_indexInv[OF e, of data] by (simp add: indexInv_def onError_def)
  ultimately show ?thesis
    using onData_indexInv[OF e]
    by (simp add: fetchFrames_cases split: sum.splits)
qed

lemma reachable_indexInv: "reachable s \<Longrightarrow> indexInv s"
proof -
  have p: "indexInv s" if "pending s" for s
    using pending_frames[OF that] by (simp add: indexInv_def)
  have "indexInv s" if "settled s"
    using that
    by (induction rule: settled.induct)
       (simp_all add: fetchFrames_indexInv pending_frames indexInv_handle)
  then show "reachable s \<Longrightarrow> indexInv s"
    using p by (auto simp add: reachable_def)
qed

lemma normalizeIndex_next:
  "0 \<le> i \<Longrightarrow> i < int n \<Longrightarrow> normalizeIndex (i + 1) n = (i + 1) mod int n"
proof (cases "i + 1 = int n")
  case True
  then show ?thesis by (simp add: normalizeIndex_def Let_def)
next
  case False
  assume "0 \<le> i" "i < int n"
  then have "(i + 1) mod int n = i + 1"
    using False by (intro mod_pos_pos_trivial) auto
  then show ?thesis using False \<open>0 \<le> i\<close> \<open>i < int n\<close> by (simp add: normalizeIndex_def Let_def)
qed

lemma normalizeIndex_prev:
  "0 \<le> i \<Longrightarrow> i < int n \<Longrightarrow> normalizeIndex (i - 1) n = (i - 1) mod int n"
proof (cases "i = 0")
  case True
  assume "i < int n"
  then have "(- 1) mod int n = int n - 1"
    using True by (simp add: zmod_minus1)
  then show ?thesis using True by (simp add: normalizeIndex_def Let_def)
next
  case False
  assume "0 \<le> i" "i < int n"
  then have "(i - 1) mod int n = i - 1"
    using False by (intro mod_pos_pos_trivial) auto
  then show ?thesis using False \<open>0 \<le> i\<close> \<open>i < int n\<close> by (simp add: normalizeIndex_def Let_def)
qed

text \<open>
  C10. The handlers of the previous-frame and next-frame controls stop the animation
  and then step: afterwards \<open>playing\<close> is false and no timer is scheduled. When the
  collection is not empty the current index has moved by one position, wrapping at the
  ends; when it is empty the index is as before.
\<close>

theorem step_controls:
  assumes "reachable s"
  shows "\<not> playing (handle PrevFrameClick s) \<and> intervals (handle PrevFrameClick s) = [] \<and>
         \<not> playing (handle NextFrameClick s) \<and> intervals (handle NextFrameClick s) = [] \<and>
         (frames s \<noteq> [] \<longrightarrow>
            currentFrameIndex (handle PrevFrameClick s) =
              (currentFrameIndex s - 1) mod int (length (frames s)) \<and>
            currentFrameIndex (handle NextFrameClick s) =
              (currentFrameIndex s + 1) mod int (length (frames s))) \<and>
         (frames s = [] \<longrightarrow>
            currentFrameIndex (handle PrevFrameClick s) = currentFrameIndex s \<and>
            currentFrameIndex (handle NextFrameClick s) = currentFrameIndex s)"
proof -
  have "timerInv (stopAnimation s)"
    using assms by (simp add: reachable_timerInv timerInv_stop)
  moreover have np: "\<not> playing (stopAnimation s)"
    by (simp add: stopAnimation_def clearInterval_def split: option.splits)
  ultimately have ni: "intervals (stopAnimation s) = []"
    by (simp add: timerInv_def)
  have range: "0 \<le> currentFrameIndex s \<and> currentFrameIndex s < int (length (frames s))"
    if "frames s \<noteq> []"
    using reachable_indexInv[OF assms] that by (simp add: indexInv_def)
  have moved: "currentFrameIndex (handle PrevFrameClick s) =
              (currentFrameIndex s - 1) mod int (length (frames s)) \<and>
            currentFrameIndex (handle NextFrameClick s) =
              (currentFrameIndex s + 1) mod int (length (frames s))"
    if ne: "frames s \<noteq> []"
  proof -
    have ne': "frames (stopAnimation s) \<noteq> []" using ne by simp
    have "currentFrameIndex (handle PrevFrameClick s) =
        normalizeIndex (currentFrameIndex s - 1) (length (frames s))"
      using loadFrame_index[OF ne', of "currentFrameIndex s - 1"]
      by (simp add: prevFrame_def)
    moreover have "currentFrameIndex (handle NextFrameClick s) =
        normalizeIndex (currentFrameIndex s + 1) (length (frames s))"
      using loadFrame_index[OF ne', of "currentFrameIndex s + 1"]
      by (simp add: nextFrame_def)
    ultimately show ?thesis
      using range[OF ne] normalizeIndex_next[of "currentFrameIndex s" "length (frames s)"]
        normalizeIndex_prev[of "currentFrameIndex s" "length (frames s)"]
      by simp
  qed
  have still: "currentFrameIndex (handle PrevFrameClick s) = currentFrameIndex s \<and>
            currentFrameIndex (handle NextFrameClick s) = currentFrameIndex s"
    if "frames s = []"
    using that by (simp add: nextFrame_def prevFrame_def loadFrame_empty)
  have "\<not> playing (handle PrevFrameClick s) \<and> intervals (handle PrevFrameClick s) = [] \<and>
         \<not> playing (handle NextFrameClick s) \<and> intervals (handle NextFrameClick s) = []"
    using np ni by (simp add: nextFrame_def prevFrame_def)
  then show ?thesis
    using moved still by blast
qed


theorem step_controls_witness:
  "reachable (handle PlayPauseClick exampleState) \<and>
   playing (handle PlayPauseClick exampleState) \<and>
   frames (handle PlayPauseClick exampleState) \<noteq> [] \<and>
   currentFrameIndex (handle PlayPauseClick exampleState) = 2 \<and>
   \<not> playing (handle NextFrameClick (handle PlayPauseClick exampleState)) \<and>
   intervals (handle NextFrameClick (handle PlayPauseClick exampleState)) = [] \<and>
   currentFrameIndex (handle NextFrameClick (handle PlayPauseClick exampleState)) = 0 \<and>
   currentFrameIndex (handle PrevFrameClick (handle PlayPauseClick exampleState)) = 1"
proof -
  define s where "s = handle PlayPauseClick exampleState"
  have r: "reachable s"
    unfolding s_def by (rule reachable_handle[OF reachable_exampleState])
  have p: "playing s"
    unfolding s_def by (simp add: exampleState_eval startAnimation_def)
  have f: "frames s \<noteq> []" and n: "int (length (frames s)) = 3"
    unfolding s_def by (simp_all add: exampleState_eval)
  have i: "currentFrameIndex s = 2"
    unfolding s_def by (simp add: exampleState_eval startAnimation_def)
  note t = step_controls[OF r]
  have a: "\<not> playing (handle NextFrameClick s) \<and> intervals (handle NextFrameClick s) = []"
    using t by blast
  have "currentFrameIndex (handle NextFrameClick s) =
      (currentFrameIndex s + 1) mod int (length (frames s))"
    using t f by blast
  then have b: "currentFrameIndex (handle NextFrameClick s) = 0"
    unfolding i n by simp
  have "currentFrameIndex (handle PrevFrameClick s) =
      (currentFrameIndex s - 1) mod int (length (frames s))"
    using t f by blast
  then have c: "currentFrameIndex (handle PrevFrameClick s) = 1"
    unfolding i n by simp
  show ?thesis
    unfolding s_def[symmetric] using r p f i a b c by blast
qed

theorem step_controls_counterexample:
  "reachable initialState \<and> frames initialState = [] \<and>
   currentFrameIndex (handle NextFrameClick initialState) = currentFrameIndex initialState \<and>
   currentFrameIndex (handle PrevFrameClick initialState) = currentFrameIndex initialState \<and>
   currentFrameIndex (handle NextFrameClick initialState) \<noteq> currentFrameIndex initialState + 1 \<and>
   currentFrameIndex (handle PrevFrameClick initialState) \<noteq> currentFrameIndex initialState - 1"
proof -
  have "frames (stopAnimation initialState) = []"
    by (simp add: initialState_def)
  then have "handle NextFrameClick initialState = stopAnimation initialState"
    "handle PrevFrameClick initialState = stopAnimation initialState"
    by (simp_all add: nextFrame_def prevFrame_def loadFrame_empty)
  then show ?thesis
    by (simp add: reachable_initialState) (simp add: initialState_def)
qed

section \<open>The overlay invariant\<close>

lemma cacheIds_simps [simp]:
  "cacheIds (s\<lparr>currentFrameIndex := i\<rparr>) = cacheIds s"
  "cacheIds (s\<lparr>mapLayers := m\<rparr>) = cacheIds s"
  "cacheIds (s\<lparr>frameTimeText := x\<rparr>) = cacheIds s"
  "cacheIds (s\<lparr>nextLayerId := n\<rparr>) = cacheIds s"
  "cacheIds (s\<lparr>apiData := a\<rparr>) = cacheIds s"
  "cacheIds (s\<lparr>frames := fs\<rparr>) = cacheIds s"
  "cacheIds (s\<lparr>radarLayers := rl\<rparr>) = layerId ` snd ` set rl"
  by (simp_all add: cacheIds_def)

lemma ownPathsOnly_simps [simp]:
  "ownPathsOnly (s\<lparr>currentFrameIndex := i\<rparr>) = ownPathsOnly s"
  "ownPathsOnly (s\<lparr>mapLayers := m\<rparr>) = ownPathsOnly s"
  "ownPathsOnly (s\<lparr>frameTimeText := x\<rparr>) = ownPathsOnly s"
  "ownPathsOnly (s\<lparr>nextLayerId := n\<rparr>) = ownPathsOnly s"
  "ownPathsOnly (s\<lparr>radarLayers := rl\<rparr>) = ownPathsOnly s"
  by (simp_all add: ownPathsOnly_def)

lemma overlayInv_filter:
  assumes "overlayInv s"
  shows "filter (\<lambda>j. j \<notin> cacheIds s) (mapLayers s) = [baseLayerId]"
proof -
  have b: "baseLayerId \<notin> cacheIds s"
    using assms by (auto simp add: overlayInv_def)
  have "mapLayers s = [baseLayerId] \<or> (\<exists>i \<in> cacheIds s. mapLayers s = [baseLayerId, i])"
    using assms by (simp add: overlayInv_def)
  then show ?thesis using b by auto
qed

lemma overlayInv_cached:
  assumes inv: "overlayInv s" and ne: "frames s \<noteq> []" and c: "i \<in> cacheIds s"
  shows "overlayInv (s\<lparr>currentFrameIndex := p, mapLayers := [baseLayerId, i], frameTimeText := x\<rparr>)"
  using assms by (auto simp add: overlayInv_def)

lemma overlayInv_loadFrame:
  assumes inv: "overlayInv s"
  shows "overlayInv (snd (loadFrame i s)) \<and>
         (frames s \<noteq> [] \<longrightarrow> shownInv (snd (loadFrame i s)))"
proof (cases "frames s = []")
  case True
  then show ?thesis using inv by (simp add: loadFrame_empty)
next
  case ne: False
  let ?p = "normalizeIndex i (length (frames s))"
  let ?f = "frames s ! nat ?p"
  note fl = overlayInv_filter[OF inv, unfolded cacheIds_def]
  have mem: "?f \<in> set (frames s)"
  proof -
    have "0 < length (frames s)" using ne by simp
    then have "0 \<le> ?p \<and> ?p < int (length (frames s))"
      by (rule normalizeIndex_range)
    then have "nat ?p < length (frames s)" by linarith
    then show ?thesis by (rule nth_mem)
  qed
  show ?thesis
  proof (cases "getProperty (radarLayers s) (path ?f)")
    case (OwnLayer l)
    have "layerId l \<in> cacheIds s"
      using Own_in_cache[OF OwnLayer] by (simp add: cacheIds_def)
    then show ?thesis
      using overlayInv_cached[OF inv ne]
      by (simp add: loadFrame_cached[OF ne OwnLayer] fl shownInv_def)
  next
    case Inherited
    have "path ?f \<in> set objectPrototypeKeys"
      using Inherited by (simp add: getProperty_Inherited)
    then have "\<not> ownPathsOnly s"
      using mem by (auto simp add: ownPathsOnly_def list_all_iff)
    then show ?thesis
      using inv ne
      by (simp add: loadFrame_inherited[OF ne Inherited] fl shownInv_def)
         (simp add: overlayInv_def)
  next
    case Undefined
    obtain d where d: "apiData s = ApiObject d"
      using inv ne by (auto simp add: overlayInv_def)
    then obtain url where url: "buildTileUrl s ?f = Inr url"
      by (simp add: buildTileUrl_def)
    have b: "baseLayerId < nextLayerId s" and
      c: "\<forall>j \<in> cacheIds s. baseLayerId < j \<and> j < nextLayerId s"
      using inv by (simp_all add: overlayInv_def)
    have "filter (\<lambda>j. j \<notin> layerId ` snd ` set (radarLayers s) \<and> j \<noteq> nextLayerId s) (mapLayers s) =
        filter (\<lambda>j. j \<noteq> nextLayerId s)
          (filter (\<lambda>j. j \<notin> layerId ` snd ` set (radarLayers s)) (mapLayers s))"
      by (simp add: conj_commute)
    also have "\<dots> = [baseLayerId]"
      using b by (simp add: fl)
    finally have fl': "filter (\<lambda>j. j \<notin> layerId ` snd ` set (radarLayers s) \<and> j \<noteq> nextLayerId s)
        (mapLayers s) = [baseLayerId]" .
    show ?thesis
      using b c d ne
      by (simp add: loadFrame_created[OF ne Undefined url] fl' shownInv_def)
         (auto simp add: overlayInv_def cacheIds_def)
  qed
qed

lemma overlayInv_fields:
  assumes "overlayInv s" and "shownInv s"
    and "nextLayerId s' = nextLayerId s" and "radarLayers s' = radarLayers s"
    and "mapLayers s' = mapLayers s" and "frames s' = frames s" and "apiData s' = apiData s"
  shows "overlayInv s' \<and> shownInv s'"
  using assms by (simp add: overlayInv_def shownInv_def cacheIds_def ownPathsOnly_def)

lemma overlayInv_initial: "overlayInv initialState \<and> shownInv initialState"
  by (simp add: overlayInv_def shownInv_def initialState_def baseLayerId_def cacheIds_def)

lemma handle_cases:
  "handle e s = stopAnimation s \<or> handle e s = startAnimation s \<or> handle e s = s \<or>
     (\<exists>i. handle e s = snd (loadFrame i s)) \<or>
     (\<exists>i. handle e s = snd (loadFrame i (stopAnimation s)))"
  by (cases e) (auto simp add: nextFrame_def prevFrame_def)

lemma overlayInv_stop: "overlayInv s \<and> shownInv s \<Longrightarrow> overlayInv (stopAnimation s) \<and> shownInv (stopAnimation s)"
  by (rule overlayInv_fields) simp_all

lemma overlayInv_start: "overlayInv s \<and> shownInv s \<Longrightarrow> overlayInv (startAnimation s) \<and> shownInv (startAnimation s)"
  by (rule overlayInv_fields) simp_all

lemma overlayInv_load:
  assumes "overlayInv s \<and> shownInv s"
  shows "overlayInv (snd (loadFrame i s)) \<and> shownInv (snd (loadFrame i s))"
proof (cases "frames s = []")
  case True
  then show ?thesis using assms by (simp add: loadFrame_empty)
next
  case False
  then show ?thesis using assms overlayInv_loadFrame[of s i] by blast
qed

lemma overlayInv_handle:
  assumes "overlayInv s \<and> shownInv s"
  shows "overlayInv (handle e s) \<and> shownInv (handle e s)"
  using handle_cases[of e s] assms overlayInv_stop[OF assms] overlayInv_start[OF assms]
    overlayInv_load[OF assms] overlayInv_load[OF overlayInv_stop[OF assms]]
  by metis


lemma onError_overlayInv:
  "overlayInv s \<and> shownInv s \<Longrightarrow> overlayInv (onError s) \<and> shownInv (onError s)"
  by (rule overlayInv_fields) (simp_all add: onError_def)

lemma onData_overlayInv:
  assumes inv: "overlayInv s" and e: "frames s = []"
  shows "overlayInv (snd (onData data s)) \<and> shownInv (snd (onData data s))"
proof -
  have empty: "overlayInv (s\<lparr>apiData := a, frames := []\<rparr>) \<and>
      shownInv (s\<lparr>apiData := a, frames := []\<rparr>)" for a
    using inv e by (simp add: overlayInv_def shownInv_def cacheIds_def)
  show ?thesis
  proof (cases data)
    case (ApiObject d)
    define fs where "fs = arrayOrEmpty (arrayMember d past) @ arrayOrEmpty (arrayMember d nowcast)"
    show ?thesis
    proof (cases "fs = []")
      case True
      then have "onData (ApiObject d) s =
          (None, s\<lparr>apiData := ApiObject d, frames := [], frameTimeText := Str ''No data''\<rparr>)"
        unfolding fs_def by (rule onData_empty)
      moreover have "overlayInv (s\<lparr>apiData := ApiObject d, frames := [], frameTimeText := Str ''No data''\<rparr>) \<and>
          shownInv (s\<lparr>apiData := ApiObject d, frames := [], frameTimeText := Str ''No data''\<rparr>)"
        using inv e by (simp add: overlayInv_def shownInv_def cacheIds_def)
      ultimately show ?thesis using ApiObject by simp
    next
      case False
      let ?s2 = "s\<lparr>apiData := ApiObject d, frames := fs\<rparr>"
      have "onData (ApiObject d) s = loadFrame (int (length fs) - 1) ?s2"
        using False unfolding fs_def by (rule onData_nonempty[OF refl])
      moreover have "overlayInv ?s2"
        using inv e False by (simp add: overlayInv_def cacheIds_def)
      moreover have "frames ?s2 \<noteq> []"
        using False by simp
      ultimately show ?thesis
        using ApiObject overlayInv_loadFrame[of ?s2 "int (length fs) - 1"] by simp
    qed
  next
    case ApiUndefined
    then show ?thesis using empty[of ApiUndefined] by (simp add: onData_def)
  next
    case ApiNull
    then show ?thesis using empty[of ApiNull] by (simp add: onData_def)
  qed
qed

lemma fetchFrames_overlayInv:
  assumes inv: "overlayInv s \<and> shownInv s" and e: "frames s = []"
  shows "overlayInv (fetchFrames r s) \<and> shownInv (fetchFrames r s)"
proof (cases "parseResponse r")
  case (Inl err)
  then show ?thesis
    using onError_overlayInv[OF inv] by (simp add: fetchFrames_cases)
next
  case (Inr data)
  have d: "overlayInv (snd (onData data s)) \<and> shownInv (snd (onData data s))"
    using inv e by (simp add: onData_overlayInv)
  show ?thesis
    using d onError_overlayInv[OF d] Inr by (simp add: fetchFrames_cases)
qed

lemma pending_overlayInv: "pending s \<Longrightarrow> overlayInv s \<and> shownInv s"
proof (induction rule: pending.induct)
  case pending_init
  show ?case by (rule overlayInv_initial)
next
  case (pending_step s e)
  then show ?case by (simp add: overlayInv_handle)
qed

lemma settled_overlayInv: "settled s \<Longrightarrow> overlayInv s \<and> shownInv s"
proof (induction rule: settled.induct)
  case (settled_fetch s r)
  then show ?case
    by (simp add: fetchFrames_overlayInv pending_overlayInv pending_frames)
next
  case (settled_step s e)
  then show ?case by (simp add: overlayInv_handle)
qed

lemma reachable_overlayInv: "reachable s \<Longrightarrow> overlayInv s \<and> shownInv s"
  using pending_overlayInv settled_overlayInv by (auto simp add: reachable_def)

lemma loadFrames_overlayInv:
  "overlayInv s \<and> shownInv s \<Longrightarrow>
     overlayInv (loadFrames ps s) \<and> shownInv (loadFrames ps s) \<and>
     frames (loadFrames ps s) = frames s"
proof (induction ps arbitrary: s)
  case Nil
  then show ?case by (simp add: loadFrames_def)
next
  case (Cons p ps)
  have "loadFrames (p # ps) s = loadFrames ps (snd (loadFrame p s))"
    by (simp add: loadFrames_def)
  then show ?case
    using Cons.IH[OF overlayInv_load[OF Cons.prems, of p]] by simp
qed

lemma overlayInv_at_most_one: "overlayInv s \<Longrightarrow> length (activeOverlays s) \<le> 1"
  by (auto simp add: overlayInv_def activeOverlays_def)

lemma overlayInv_none: "overlayInv s \<Longrightarrow> frames s = [] \<Longrightarrow> activeOverlays s = []"
  by (simp add: overlayInv_def activeOverlays_def)

lemma shownInv_one:
  "overlayInv s \<Longrightarrow> shownInv s \<Longrightarrow> frames s \<noteq> [] \<Longrightarrow> ownPathsOnly s \<Longrightarrow>
     length (activeOverlays s) = 1"
  by (auto simp add: overlayInv_def shownInv_def activeOverlays_def)

text \<open>
  After any sequence of \<^verbatim>\<open>loadFrame\<close> calls from a reachable state the map never
  shows two radar layers; it shows none while the collection is empty; and it shows
  exactly one when the collection is not empty and no path in it names a member of
  \<^verbatim>\<open>Object.prototype\<close>.
\<close>

lemma loadFrames_overlays:
  assumes "reachable s"
  shows "length (activeOverlays (loadFrames ps s)) \<le> 1 \<and>
         (frames s = [] \<longrightarrow> activeOverlays (loadFrames ps s) = []) \<and>
         (frames s \<noteq> [] \<and> ownPathsOnly s \<longrightarrow> length (activeOverlays (loadFrames ps s)) = 1)"
proof -
  note l = loadFrames_overlayInv[OF reachable_overlayInv[OF assms], of ps]
  have o: "ownPathsOnly (loadFrames ps s) = ownPathsOnly s"
    using l by (simp add: ownPathsOnly_def)
  show ?thesis
    using l o overlayInv_at_most_one[of "loadFrames ps s"] overlayInv_none[of "loadFrames ps s"]
      shownInv_one[of "loadFrames ps s"]
    by simp
qed

section \<open>buildTileUrl where it is called\<close>

lemma reachable_frames_apiData:
  "reachable s \<Longrightarrow> frames s \<noteq> [] \<Longrightarrow> \<exists>d. apiData s = ApiObject d"
  using reachable_overlayInv[of s] by (simp add: overlayInv_def)

text \<open>
  C9. \<^verbatim>\<open>buildTileUrl\<close> changes no state. Once the feed object is loaded it returns a
  string for every frame, whatever the frame's path (the empty path included) and
  whether or not the feed has a host: the host text, then the path, then the fixed
  suffix. The result depends on the state only through the feed's host, so two calls
  with the same host and the same frame return the same string. \<^verbatim>\<open>loadFrame\<close> calls it
  only when there are frames, and in every reachable state with frames the feed object
  is loaded, so no call of the page fails.
\<close>

theorem buildTileUrl_total:
  "(apiData s = ApiObject d \<longrightarrow>
      buildTileUrl s f =
        Inr (hostToString (host d) @ path f @ ''/512/{z}/{x}/{y}/2/1_1.png'') \<and>
      buildTileUrl s (f\<lparr>path := []\<rparr>) =
        Inr (hostToString (host d) @ ''/512/{z}/{x}/{y}/2/1_1.png'') \<and>
      (\<forall>s' d'. apiData s' = ApiObject d' \<and> host d' = host d \<longrightarrow>
         buildTileUrl s' f = buildTileUrl s f)) \<and>
   (reachable s \<and> frames s \<noteq> [] \<longrightarrow> (\<exists>url. buildTileUrl s f = Inr url))"
proof -
  have "\<exists>url. buildTileUrl s f = Inr url" if r: "reachable s" and n: "frames s \<noteq> []"
  proof -
    obtain d' where "apiData s = ApiObject d'"
      using reachable_frames_apiData[OF r n] by blast
    then show ?thesis by (simp add: buildTileUrl_def)
  qed
  then show ?thesis
    by (auto simp add: buildTileUrl_def numberToString_consts extension_def)
qed

theorem buildTileUrl_total_witness:
  "apiData exampleState = ApiObject exampleFeed \<and>
   reachable exampleState \<and> frames exampleState \<noteq> [] \<and>
   buildTileUrl exampleState (frameA\<lparr>path := []\<rparr>) =
     Inr ''https://tilecache.rainviewer.com/512/{z}/{x}/{y}/2/1_1.png'' \<and>
   buildTileUrl (exampleState\<lparr>apiData := ApiObject (exampleFeed\<lparr>radar := None\<rparr>)\<rparr>) frameB =
     buildTileUrl exampleState frameB \<and>
   (\<exists>url. buildTileUrl exampleState frameC = Inr url)"
proof -
  have a: "apiData exampleState = ApiObject exampleFeed"
    by (simp add: exampleState_eval)
  have n: "frames exampleState \<noteq> []"
    by (simp add: exampleState_eval)
  note r = reachable_exampleState
  note t = buildTileUrl_total[of exampleState exampleFeed]
  have "buildTileUrl (exampleState\<lparr>apiData := ApiObject (exampleFeed\<lparr>radar := None\<rparr>)\<rparr>) frameB =
     buildTileUrl exampleState frameB"
    using t[of frameB] a by simp
  moreover have "buildTileUrl exampleState (frameA\<lparr>path := []\<rparr>) =
     Inr (hostToString (host exampleFeed) @ ''/512/{z}/{x}/{y}/2/1_1.png'')"
    using t[of frameA] a by blast
  then have "buildTileUrl exampleState (frameA\<lparr>path := []\<rparr>) =
     Inr ''https://tilecache.rainviewer.com/512/{z}/{x}/{y}/2/1_1.png''"
    by (simp add: exampleFeed_def hostToString_def tileHost_def)
  moreover have "\<exists>url. buildTileUrl exampleState frameC = Inr url"
    using t[of frameC] r n by blast
  ultimately show ?thesis using a r n by blast
qed

section \<open>Claims about the overlays\<close>

lemma loadFrame_0_exampleState:
  "loadFrame 0 exampleState =
     (None,
      \<lparr>apiData = ApiObject exampleFeed, frames = [frameA, frameB, frameC],
       currentFrameIndex = 0,
       radarLayers =
         [(path frameC,
           \<lparr>layerId = 1,
            urlTemplate =
              ''https://tilecache.rainviewer.com/v2/radar/nowcast_760a92849a05/512/{z}/{x}/{y}/2/1_1.png'',
            options = overlayOptions\<rparr>),
          (path frameA,
           \<lparr>layerId = 2,
            urlTemplate =
              ''https://tilecache.rainviewer.com/v2/radar/1755471000/512/{z}/{x}/{y}/2/1_1.png'',
            options = overlayOptions\<rparr>)],
       playing = False, timer = None, mapLayers = [0, 2],
       nextLayerId = 3, intervals = [], nextIntervalId = 0,
       frameTimeText = DateLocaleString 1755471000000, playPauseText = PageMarkup\<rparr>)"
  by (simp add: exampleState_eval eval_defs)

lemma constructorState_eval:
  "constructorState =
     \<lparr>apiData = ApiObject constructorFeed, frames = [constructorFrame],
      currentFrameIndex = 0, radarLayers = [],
      playing = False, timer = None, mapLayers = [0],
      nextLayerId = 1, intervals = [], nextIntervalId = 0,
      frameTimeText = Str ''Error loading data'', playPauseText = PageMarkup\<rparr>"
  by (simp add: constructorState_def constructorFeed_def constructorFrame_def eval_defs)

lemma loadFrame_constructorState:
  "loadFrame i constructorState = (Some TypeError, constructorState)"
  by (simp add: constructorState_eval constructorFeed_def constructorFrame_def eval_defs)

lemma reachable_constructorState: "reachable constructorState"
  unfolding reachable_def constructorState_def
  by (rule disjI2, rule settled_fetch, rule pending_init)

text \<open>
  C5. A feed whose only frame has the path \<^verbatim>\<open>constructor\<close> loads into a collection
  of one frame, and no radar layer is on the map: the cache lookup finds the inherited
  \<^verbatim>\<open>Object.prototype.constructor\<close>, no layer is created, the layers are cleared and
  \<^verbatim>\<open>addTo\<close> throws. Every later \<^verbatim>\<open>loadFrame\<close> call, whatever its argument, and the
  next-frame control end the same way.
\<close>

theorem constructor_path_shows_no_overlay:
  "frames constructorState = [constructorFrame] \<and>
   activeOverlays constructorState = [] \<and>
   frameTimeText constructorState = Str ''Error loading data'' \<and>
   loadFrame 0 constructorState = (Some TypeError, constructorState) \<and>
   activeOverlays (loadFrames [0, 1, - 1] constructorState) = [] \<and>
   activeOverlays (handle NextFrameClick constructorState) = []"
proof -
  have "loadFrames [0, 1, - 1] constructorState = constructorState"
    by (simp add: loadFrames_def loadFrame_constructorState)
  moreover have "stopAnimation constructorState = constructorState"
    by (simp add: stopAnimation_def constructorState_eval)
  then have "handle NextFrameClick constructorState = constructorState"
    by (simp add: nextFrame_def loadFrame_constructorState)
  moreover have "activeOverlays constructorState = []"
    by (simp add: constructorState_eval activeOverlays_def baseLayerId_def)
  ultimately show ?thesis
    by (simp add: loadFrame_constructorState) (simp add: constructorState_eval)
qed

lemma fetchFrames_shows_last:
  assumes "ok status" and "frames (fetchFrames (Response status (JsonObject d)) s) \<noteq> []"
  shows "currentFrameIndex (fetchFrames (Response status (JsonObject d)) s) =
           int (length (frames (fetchFrames (Response status (JsonObject d)) s))) - 1"
proof -
  define fs where "fs = arrayOrEmpty (arrayMember d past) @ arrayOrEmpty (arrayMember d nowcast)"
  have f: "frames (fetchFrames (Response status (JsonObject d)) s) = fs"
    unfolding fs_def using assms(1) by (rule fetchFrames_frames)
  then have ne: "fs \<noteq> []" using assms(2) by simp
  let ?s2 = "s\<lparr>apiData := ApiObject d, frames := fs\<rparr>"
  have o: "onData (ApiObject d) s = loadFrame (int (length fs) - 1) ?s2"
    using ne unfolding fs_def by (rule onData_nonempty[OF refl])
  have "currentFrameIndex (snd (loadFrame (int (length fs) - 1) ?s2)) =
      normalizeIndex (int (length fs) - 1) (length (frames ?s2))"
    using ne by (intro loadFrame_index) simp
  also have "\<dots> = int (length fs) - 1"
    using ne by (simp add: normalizeIndex_def Let_def)
  finally have "currentFrameIndex (snd (onData (ApiObject d) s)) = int (length fs) - 1"
    using o by simp
  then have "currentFrameIndex (fetchFrames (Response status (JsonObject d)) s) = int (length fs) - 1"
    using assms(1) by (simp add: fetchFrames_cases parseResponse_def onError_def)
  then show ?thesis using f by simp
qed

text \<open>
  C8. For the feed \<^verbatim>\<open>{radar:{past:[A,B], nowcast:[C]}}\<close> the loader calls
  \<^verbatim>\<open>loadFrame\<close> with the last index of the collection, and the frame shown is the
  forecast frame \<open>C\<close>, not \<open>B\<close>, the most recent past frame.
\<close>

theorem default_frame_is_last_of_collection:
  "arrayMember exampleFeed past = Some [frameA, frameB] \<and>
   arrayMember exampleFeed nowcast = Some [frameC] \<and>
   frames exampleState = [frameA, frameB, frameC] \<and>
   currentFrameIndex exampleState = int (length (frames exampleState)) - 1 \<and>
   frames exampleState ! nat (currentFrameIndex exampleState) = frameC \<and>
   frameC \<noteq> frameB \<and>
   frameTimeText exampleState = DateLocaleString (time frameC * 1000) \<and>
   map fst (radarLayers exampleState) = [path frameC] \<and>
   activeOverlays exampleState = map (layerId \<circ> snd) (radarLayers exampleState)"
  by (simp add: exampleState_eval activeOverlays_def baseLayerId_def)
     (simp add: exampleFeed_def arrayMember_def frameB_def frameC_def)

text \<open>
  C4. Calling \<^verbatim>\<open>loadFrame\<close> a second time with the same index gives the state of the
  first call: the layers on the map, the layer cache, the current index and the
  timestamp text are the same, and no layer object is made. When the first call
  returned, the second finds the frame's layer in the cache.
\<close>

theorem loadFrame_idempotent:
  "loadFrame k (snd (loadFrame k s)) = loadFrame k s \<and>
   mapLayers (snd (loadFrame k (snd (loadFrame k s)))) = mapLayers (snd (loadFrame k s)) \<and>
   radarLayers (snd (loadFrame k (snd (loadFrame k s)))) = radarLayers (snd (loadFrame k s)) \<and>
   nextLayerId (snd (loadFrame k (snd (loadFrame k s)))) = nextLayerId (snd (loadFrame k s)) \<and>
   currentFrameIndex (snd (loadFrame k (snd (loadFrame k s)))) =
     currentFrameIndex (snd (loadFrame k s)) \<and>
   frameTimeText (snd (loadFrame k (snd (loadFrame k s)))) = frameTimeText (snd (loadFrame k s)) \<and>
   (frames s \<noteq> [] \<and> fst (loadFrame k s) = None \<longrightarrow>
      (\<exists>l. getProperty (radarLayers (snd (loadFrame k s)))
             (path (frames s ! nat (normalizeIndex k (length (frames s))))) = OwnLayer l))"
  using loadFrame_returns_cached[of s k]
  by (simp add: loadFrame_twice)

theorem loadFrame_idempotent_witness:
  "frames exampleState \<noteq> [] \<and> fst (loadFrame 0 exampleState) = None \<and>
   normalizeIndex 0 (length (frames exampleState)) = 0 \<and>
   loadFrame 0 (snd (loadFrame 0 exampleState)) = loadFrame 0 exampleState \<and>
   nextLayerId (snd (loadFrame 0 (snd (loadFrame 0 exampleState)))) = 3 \<and>
   (\<exists>l. getProperty (radarLayers (snd (loadFrame 0 exampleState))) (path frameA) = OwnLayer l)"
proof -
  have f: "frames exampleState \<noteq> []" and r: "fst (loadFrame 0 exampleState) = None"
    and n: "normalizeIndex 0 (length (frames exampleState)) = 0"
    and a: "frames exampleState ! nat 0 = frameA"
    and c: "nextLayerId (snd (loadFrame 0 exampleState)) = 3"
    by (simp_all add: loadFrame_0_exampleState)
       (simp_all add: exampleState_eval normalizeIndex_def)
  note t = loadFrame_idempotent[of 0 exampleState]
  have "loadFrame 0 (snd (loadFrame 0 exampleState)) = loadFrame 0 exampleState"
    using t by blast
  moreover have "nextLayerId (snd (loadFrame 0 (snd (loadFrame 0 exampleState)))) = 3"
    using t c by metis
  moreover have "\<exists>l. getProperty (radarLayers (snd (loadFrame 0 exampleState))) (path frameA) = OwnLayer l"
    using t f r unfolding n a by blast
  ultimately show ?thesis using f r n by blast
qed

end
